theory Spec2Isabelle
  imports Main "HOL-Library.Word" "HOL-Library.Sublist"
begin

section \<open>Shared data: Go values, errors and results\<close>

text \<open>
  A Go \<^verbatim>\<open>interface{}\<close> value as the provider receives it from the host's schema:
  a string, an integer or a boolean. Only the string case passes the type assertion
  \<^verbatim>\<open>value.(string)\<close>.
\<close>

datatype iface = IStr string | IInt int | IBool bool

text \<open>
  Errors are values. \<open>ExitError c\<close> is \<^verbatim>\<open>*exec.ExitError\<close> with its exit code,
  \<open>PathError e\<close> the error of a failed file-system call, \<open>ToolError\<close> an error of the
  embedded tool (its message and its exit code, when it carries one), \<open>Errorf\<close> a
  \<^verbatim>\<open>fmt.Errorf\<close> message and \<open>Wrap\<close> a \<^verbatim>\<open>fmt.Errorf("...: %w", err)\<close>.
\<close>

datatype errno = ENOENT | EACCES | ENOTEMPTY | EIO

datatype go_error =
    ExitError int
  | StartError string
  | PathError errno
  | ToolError string "int option"
  | Errorf string
  | Wrap string go_error

text \<open>The struct \<^verbatim>\<open>Result\<close> of the executor interface.\<close>

record Result =
  Output :: string
  ExitCode :: int
  Error :: "go_error option"

section \<open>The subprocess variant: runCommand\<close>

text \<open>
  \<^verbatim>\<open>cmd.CombinedOutput()\<close> is the child process: it yields the captured output and
  \<^verbatim>\<open>nil\<close>, an \<^verbatim>\<open>*exec.ExitError\<close> (the child ran and exited non-zero) or another
  error (the binary could not be started). \<open>runCommand\<close> takes that pair and builds what
  the Go function returns: the result and the error.
\<close>

definition runCommand :: "string \<times> go_error option \<Rightarrow> Result \<times> go_error option" where
  "runCommand run =
     (let output = fst run; err = snd run;
          result = \<lparr>Output = output, ExitCode = 0, Error = err\<rparr>;
          result' = (case err of
                       Some (ExitError c) \<Rightarrow> result\<lparr>ExitCode := c\<rparr>
                     | _ \<Rightarrow> result)
      in (result', err))"

text \<open>
  The operations of \<^verbatim>\<open>BinaryExecutor\<close> differ in the arguments they pass to the child;
  each ends in \<^verbatim>\<open>return e.runCommand(ctx, &opts.BaseOptions, args)\<close>. The child is the
  parameter \<open>exec\<close>, from the argument list to its outcome.
\<close>

datatype operation = OpApply | OpDiff | OpTemplate | OpDestroy | OpBuild

fun operation_name :: "operation \<Rightarrow> string" where
  "operation_name OpApply = ''apply''"
| "operation_name OpDiff = ''diff''"
| "operation_name OpTemplate = ''template''"
| "operation_name OpDestroy = ''destroy''"
| "operation_name OpBuild = ''build''"

definition BinaryExecutor_run ::
  "(string list \<Rightarrow> string \<times> go_error option) \<Rightarrow> operation \<Rightarrow> string list \<Rightarrow>
   Result \<times> go_error option" where
  "BinaryExecutor_run exec op flags = runCommand (exec (operation_name op # flags))"

section \<open>The in-process variant\<close>

text \<open>
  The embedded tool (\<^verbatim>\<open>app.New(config).Diff(config)\<close> and its siblings) is a parameter:
  from the process environment it finds, it yields the captured output, its error and
  the environment it leaves behind.
\<close>

type_synonym environ = "string \<rightharpoonup> string"

record tool_outcome =
  captured :: string
  tool_err :: "go_error option"
  env_after :: environ

text \<open>What every in-process operation does with the tool's error and captured output.\<close>

definition library_result :: "string \<Rightarrow> go_error option \<Rightarrow> Result \<times> go_error option" where
  "library_result output err =
     (case err of
        Some e \<Rightarrow> (\<lparr>Output = output, ExitCode = 1, Error = Some e\<rparr>, Some e)
      | None \<Rightarrow> (\<lparr>Output = output, ExitCode = 0, Error = None\<rparr>, None))"

text \<open>\<^verbatim>\<open>LibraryExecutor.Build\<close> and \<^verbatim>\<open>LibraryExecutor.Version\<close>: neither reads its
  arguments. \<open>None\<close> in the first component is the \<^verbatim>\<open>nil\<close> result.\<close>

definition LibraryExecutor_Build :: "'opts \<Rightarrow> Result option \<times> go_error option" where
  "LibraryExecutor_Build opts =
     (None, Some (Errorf ''Build operation not yet implemented for library executor''))"

definition LibraryExecutor_Version :: "'ctx \<Rightarrow> string \<times> go_error option" where
  "LibraryExecutor_Version ctx = (''library-mode'', None)"

section \<open>The generated kubeconfig\<close>

record EKSClusterConfig =
  ClusterName :: string
  Region :: string
  Endpoint :: string
  CA :: string
  AWSProfile :: string

record ClusterDetail =
  Server :: string
  CertificateAuthorityData :: string

record ClusterEntry =
  cluster_Name :: string
  Cluster :: ClusterDetail

record ContextDetail =
  context_Cluster :: string
  context_User :: string

record ContextEntry =
  context_Name :: string
  Context :: ContextDetail

record ExecEnvVar =
  env_Name :: string
  env_Value :: string

record ExecConfig =
  exec_APIVersion :: string
  Command :: string
  Args :: "string list"
  Env :: "ExecEnvVar list"

record UserDetail =
  Exec :: ExecConfig

record UserEntry =
  user_Name :: string
  User :: UserDetail

record KubeconfigData =
  APIVersion :: string
  Kind :: string
  Clusters :: "ClusterEntry list"
  Contexts :: "ContextEntry list"
  CurrentContext :: string
  Users :: "UserEntry list"

text \<open>The three local values \<^verbatim>\<open>args\<close>, \<^verbatim>\<open>envVars\<close> and \<^verbatim>\<open>kubeconfig\<close> of
  \<^verbatim>\<open>generateKubeconfigYAML\<close>.\<close>

definition exec_args :: "EKSClusterConfig \<Rightarrow> string list" where
  "exec_args config =
     (let args = [''eks'', ''get-token'', ''--cluster-name'', ClusterName config]
      in if Region config \<noteq> [] then args @ [''--region'', Region config] else args)"

definition exec_envVars :: "EKSClusterConfig \<Rightarrow> ExecEnvVar list" where
  "exec_envVars config =
     (if AWSProfile config \<noteq> []
      then [] @ [\<lparr>env_Name = ''AWS_PROFILE'', env_Value = AWSProfile config\<rparr>]
      else [])"

definition kubeconfig_of :: "EKSClusterConfig \<Rightarrow> KubeconfigData" where
  "kubeconfig_of config =
     \<lparr>APIVersion = ''v1'',
      Kind = ''Config'',
      Clusters =
        [\<lparr>cluster_Name = ClusterName config,
          Cluster = \<lparr>Server = Endpoint config, CertificateAuthorityData = CA config\<rparr>\<rparr>],
      Contexts =
        [\<lparr>context_Name = ClusterName config,
          Context = \<lparr>context_Cluster = ClusterName config,
                     context_User = ClusterName config\<rparr>\<rparr>],
      CurrentContext = ClusterName config,
      Users =
        [\<lparr>user_Name = ClusterName config,
          User = \<lparr>Exec = \<lparr>exec_APIVersion = ''client.authentication.k8s.io/v1beta1'',
                           Command = ''aws'',
                           Args = exec_args config,
                           Env = exec_envVars config\<rparr>\<rparr>\<rparr>]\<rparr>"

text \<open>
  \<^verbatim>\<open>yaml.Marshal\<close> is the parameter \<open>marshal\<close>; its failure is wrapped, its bytes are
  returned as the document.
\<close>

definition generateKubeconfigYAML ::
  "(KubeconfigData \<Rightarrow> go_error + string) \<Rightarrow> EKSClusterConfig \<Rightarrow> go_error + string" where
  "generateKubeconfigYAML marshal config =
     (case marshal (kubeconfig_of config) of
        Inl err \<Rightarrow> Inl (Wrap ''marshaling kubeconfig to YAML'' err)
      | Inr yamlBytes \<Rightarrow> Inr yamlBytes)"

section \<open>Environment scoping for the in-process variant\<close>

text \<open>
  The process environment is a map from names to values. \<^verbatim>\<open>os.Setenv\<close> refuses an
  empty name, a name holding \<^verbatim>\<open>=\<close> or NUL and a value holding NUL, and then leaves the
  environment as it is; \<^verbatim>\<open>setEnvironmentVariables\<close> drops the error it returns.
  An environment the operating system can hold has valid names and values only.
\<close>

definition valid_key :: "string \<Rightarrow> bool" where
  "valid_key k = (k \<noteq> [] \<and> CHR ''='' \<notin> set k \<and> CHR 0x00 \<notin> set k)"

definition valid_value :: "string \<Rightarrow> bool" where
  "valid_value v = (CHR 0x00 \<notin> set v)"

definition wf_env :: "environ \<Rightarrow> bool" where
  "wf_env env = (\<forall>k v. env k = Some v \<longrightarrow> valid_key k \<and> valid_value v)"

definition os_LookupEnv :: "string \<Rightarrow> environ \<Rightarrow> string option" where
  "os_LookupEnv key env = env key"

definition os_Setenv :: "string \<Rightarrow> string \<Rightarrow> environ \<Rightarrow> environ" where
  "os_Setenv key val env = (if valid_key key \<and> valid_value val then env(key \<mapsto> val) else env)"

definition os_Unsetenv :: "string \<Rightarrow> environ \<Rightarrow> environ" where
  "os_Unsetenv key env = env(key := None)"

definition awsEnvVars :: "string list" where
  "awsEnvVars =
     [''AWS_PROFILE'', ''AWS_REGION'', ''AWS_DEFAULT_REGION'', ''AWS_ACCESS_KEY_ID'',
      ''AWS_SECRET_ACCESS_KEY'', ''AWS_SESSION_TOKEN'', ''AWS_CONFIG_FILE'',
      ''AWS_SHARED_CREDENTIALS_FILE'', ''HOME'']"

text \<open>First loop: copy the AWS variables the parent process has.\<close>

fun copyParent :: "string list \<Rightarrow> environ \<Rightarrow> (string \<rightharpoonup> iface) \<Rightarrow> (string \<rightharpoonup> iface)" where
  "copyParent [] env complete = complete"
| "copyParent (key # keys) env complete =
     copyParent keys env
       (case os_LookupEnv key env of
          Some val \<Rightarrow> complete(key \<mapsto> IStr val)
        | None \<Rightarrow> complete)"

text \<open>Second loop: every configured entry is assigned over what the first loop stored.\<close>

definition completeEnvVars :: "(string \<rightharpoonup> iface) \<Rightarrow> environ \<Rightarrow> (string \<rightharpoonup> iface)" where
  "completeEnvVars envVars env = copyParent awsEnvVars env Map.empty ++ envVars"

text \<open>
  What the returned closure captures: \<^verbatim>\<open>originalValues\<close> and \<^verbatim>\<open>keysToUnset\<close>.
\<close>

record env_scope =
  originalValues :: "string \<rightharpoonup> string"
  keysToUnset :: "string list"

text \<open>
  Third loop. Go ranges over a map in an unspecified order, visiting every key once:
  the order is the list of keys given as first argument (see \<open>is_range\<close>).
\<close>

fun setEach ::
  "string list \<Rightarrow> (string \<rightharpoonup> iface) \<Rightarrow> environ \<Rightarrow> env_scope \<Rightarrow> environ \<times> env_scope" where
  "setEach [] complete env sc = (env, sc)"
| "setEach (key # keys) complete env sc =
     (let sc' = (case os_LookupEnv key env of
                   Some originalValue \<Rightarrow>
                     sc\<lparr>originalValues := (originalValues sc)(key \<mapsto> originalValue)\<rparr>
                 | None \<Rightarrow> sc\<lparr>keysToUnset := keysToUnset sc @ [key]\<rparr>);
          env' = (case complete key of
                    Some (IStr strValue) \<Rightarrow> os_Setenv key strValue env
                  | _ \<Rightarrow> env)
      in setEach keys complete env' sc')"

text \<open>What the turn of one key in the third loop leaves in the environment under that
  key: the configured string when \<^verbatim>\<open>os.Setenv\<close> accepts it, the value before otherwise.\<close>

definition written :: "(string \<rightharpoonup> iface) \<Rightarrow> environ \<Rightarrow> string \<Rightarrow> string option" where
  "written complete env k =
     (case complete k of
        Some (IStr s) \<Rightarrow> (if valid_key k \<and> valid_value s then Some s else env k)
      | _ \<Rightarrow> env k)"

definition is_range :: "string list \<Rightarrow> (string \<rightharpoonup> 'v) \<Rightarrow> bool" where
  "is_range order m = (distinct order \<and> set order = dom m)"

definition setEnvironmentVariables ::
  "string list \<Rightarrow> (string \<rightharpoonup> iface) \<Rightarrow> environ \<Rightarrow> environ \<times> env_scope" where
  "setEnvironmentVariables order envVars env =
     setEach order (completeEnvVars envVars env) env
       \<lparr>originalValues = Map.empty, keysToUnset = []\<rparr>"

text \<open>The returned closure: set back the recorded values (a range over a map again, in
  the order \<open>rorder\<close>), then unset the recorded keys.\<close>

fun restoreOriginal :: "string list \<Rightarrow> (string \<rightharpoonup> string) \<Rightarrow> environ \<Rightarrow> environ" where
  "restoreOriginal [] orig env = env"
| "restoreOriginal (key # keys) orig env =
     restoreOriginal keys orig
       (case orig key of Some val \<Rightarrow> os_Setenv key val env | None \<Rightarrow> env)"

fun unsetKeys :: "string list \<Rightarrow> environ \<Rightarrow> environ" where
  "unsetKeys [] env = env"
| "unsetKeys (key # keys) env = unsetKeys keys (os_Unsetenv key env)"

definition restoreEnv :: "string list \<Rightarrow> env_scope \<Rightarrow> environ \<Rightarrow> environ" where
  "restoreEnv rorder sc env =
     unsetKeys (keysToUnset sc) (restoreOriginal rorder (originalValues sc) env)"

text \<open>
  \<^verbatim>\<open>Diff\<close>, \<^verbatim>\<open>Template\<close> and \<^verbatim>\<open>Destroy\<close> of the in-process variant have one shape:
  set the environment, defer the restoration, run the tool, build the result. The
  deferred closure runs on both returns, so the environment the caller gets back is the
  restored one whether the tool failed or not.
\<close>

definition library_call ::
  "string list \<Rightarrow> string list \<Rightarrow> (environ \<Rightarrow> tool_outcome) \<Rightarrow> (string \<rightharpoonup> iface) \<Rightarrow> environ \<Rightarrow>
   (Result \<times> go_error option) \<times> environ" where
  "library_call order rorder tool envVars env =
     (let (env1, restore) = setEnvironmentVariables order envVars env;
          out = tool env1
      in (library_result (captured out) (tool_err out),
          restoreEnv rorder restore (env_after out)))"

definition LibraryExecutor_Diff ::
  "string list \<Rightarrow> string list \<Rightarrow> (environ \<Rightarrow> tool_outcome) \<Rightarrow> (string \<rightharpoonup> iface) \<Rightarrow> environ \<Rightarrow>
   (Result \<times> go_error option) \<times> environ" where
  "LibraryExecutor_Diff = library_call"

definition LibraryExecutor_Template ::
  "string list \<Rightarrow> string list \<Rightarrow> (environ \<Rightarrow> tool_outcome) \<Rightarrow> (string \<rightharpoonup> iface) \<Rightarrow> environ \<Rightarrow>
   (Result \<times> go_error option) \<times> environ" where
  "LibraryExecutor_Template = library_call"

definition LibraryExecutor_Destroy ::
  "string list \<Rightarrow> string list \<Rightarrow> (environ \<Rightarrow> tool_outcome) \<Rightarrow> (string \<rightharpoonup> iface) \<Rightarrow> environ \<Rightarrow>
   (Result \<times> go_error option) \<times> environ" where
  "LibraryExecutor_Destroy = library_call"

text \<open>\<^verbatim>\<open>Apply\<close> also reports the AWS variables before and after the overrides, the two
  secrets masked. The rendering \<^verbatim>\<open>%v\<close> of the configured map is the parameter \<open>shown\<close>.\<close>

definition mask :: "string \<Rightarrow> string \<Rightarrow> string" where
  "mask key val =
     (if key = ''AWS_SECRET_ACCESS_KEY'' \<or> key = ''AWS_SESSION_TOKEN''
      then (if length val > 4 then take 4 val @ ''***'' @ drop (length val - 4) val
            else ''***'')
      else val)"

definition debug_line :: "environ \<Rightarrow> string \<Rightarrow> string" where
  "debug_line env key =
     (case os_LookupEnv key env of
        Some val \<Rightarrow> ''  '' @ key @ ''='' @ mask key val @ [CHR 0x0A]
      | None \<Rightarrow> ''  '' @ key @ ''=(not set)'' @ [CHR 0x0A])"

definition awsVars :: "string list" where
  "awsVars =
     [''AWS_PROFILE'', ''AWS_REGION'', ''AWS_ACCESS_KEY_ID'', ''AWS_SECRET_ACCESS_KEY'',
      ''AWS_SESSION_TOKEN'', ''HOME'', ''AWS_CONFIG_FILE'', ''AWS_SHARED_CREDENTIALS_FILE'']"

definition debugOutput :: "string \<Rightarrow> environ \<Rightarrow> environ \<Rightarrow> string" where
  "debugOutput shown env env1 =
     ''=== PROVIDER DEBUG INFO ==='' @ [CHR 0x0A] @
     ''AWS Environment BEFORE setting:'' @ [CHR 0x0A] @
     concat (map (debug_line env) awsVars) @
     ''Environment variables from config: '' @ shown @ [CHR 0x0A] @
     [CHR 0x0A] @ ''AWS Environment AFTER setting:'' @ [CHR 0x0A] @
     concat (map (debug_line env1) awsVars) @
     ''=== END PROVIDER DEBUG INFO ==='' @ [CHR 0x0A, CHR 0x0A]"

definition LibraryExecutor_Apply ::
  "string list \<Rightarrow> string list \<Rightarrow> string \<Rightarrow> (environ \<Rightarrow> tool_outcome) \<Rightarrow> (string \<rightharpoonup> iface) \<Rightarrow>
   environ \<Rightarrow> (Result \<times> go_error option) \<times> environ" where
  "LibraryExecutor_Apply order rorder shown tool envVars env =
     (let (env1, restore) = setEnvironmentVariables order envVars env;
          out = tool env1;
          output = debugOutput shown env env1 @ captured out
      in (library_result output (tool_err out),
          restoreEnv rorder restore (env_after out)))"

section \<open>Formatting and paths\<close>

text \<open>Decimal digits of a number, and the text an error prints.\<close>

fun nat_dec :: "nat \<Rightarrow> string" where
  "nat_dec n =
     (if n < 10 then [''0123456789'' ! n]
      else nat_dec (n div 10) @ [''0123456789'' ! (n mod 10)])"

declare nat_dec.simps [simp del]

definition int_dec :: "int \<Rightarrow> string" where
  "int_dec i = (if i < 0 then ''-'' @ nat_dec (nat (- i)) else nat_dec (nat i))"

fun errno_text :: "errno \<Rightarrow> string" where
  "errno_text ENOENT = ''no such file or directory''"
| "errno_text EACCES = ''permission denied''"
| "errno_text ENOTEMPTY = ''directory not empty''"
| "errno_text EIO = ''input/output error''"

fun error_text :: "go_error \<Rightarrow> string" where
  "error_text (ExitError c) = ''exit status '' @ int_dec c"
| "error_text (StartError m) = m"
| "error_text (PathError e) = errno_text e"
| "error_text (ToolError m c) = m"
| "error_text (Errorf m) = m"
| "error_text (Wrap m e) = m @ '': '' @ error_text e"

text \<open>\<^verbatim>\<open>fmt.Sprintf("%s", v)\<close> for a value of interface type: a string prints as it is,
  the other kinds print the marker of a wrong verb.\<close>

fun Sprintf_s :: "iface \<Rightarrow> string" where
  "Sprintf_s (IStr s) = s"
| "Sprintf_s (IInt i) = ''%!s(int='' @ int_dec i @ '')''"
| "Sprintf_s (IBool b) = ''%!s(bool='' @ (if b then ''true'' else ''false'') @ '')''"

text \<open>\<^verbatim>\<open>strings.Contains\<close>.\<close>

fun Contains :: "string \<Rightarrow> string \<Rightarrow> bool" where
  "Contains [] substr = (substr = [])"
| "Contains (c # cs) substr = (prefix substr (c # cs) \<or> Contains cs substr)"

text \<open>
  A SHA-256 digest is a list of bytes; \<^verbatim>\<open>%x\<close> prints each byte as two lower-case
  hexadecimal digits. The hash function itself is a parameter of what uses it.
\<close>

type_synonym byte = "8 word"

definition hexdigit :: "nat \<Rightarrow> char" where
  "hexdigit n = ''0123456789abcdef'' ! n"

definition hex_byte :: "byte \<Rightarrow> string" where
  "hex_byte b = [hexdigit (unat b div 16), hexdigit (unat b mod 16)]"

definition hex :: "byte list \<Rightarrow> string" where
  "hex bs = concat (map hex_byte bs)"

text \<open>
  \<^verbatim>\<open>path/filepath\<close> on Unix. \<open>splitSep\<close> cuts a path at every separator; \<open>clean_step\<close>
  is one round of the loop of \<^verbatim>\<open>Clean\<close> over the components, the components kept so
  far being the stack: an empty component and \<^verbatim>\<open>.\<close> are dropped, \<^verbatim>\<open>..\<close> removes the
  component before it, is dropped at the root and is kept at the start of a relative path.
\<close>

fun splitSep :: "string \<Rightarrow> string list" where
  "splitSep [] = [[]]"
| "splitSep (c # cs) =
     (if c = CHR ''/'' then [] # splitSep cs
      else (case splitSep cs of
              [] \<Rightarrow> [[c]]
            | x # xs \<Rightarrow> (c # x) # xs))"

definition rooted :: "string \<Rightarrow> bool" where
  "rooted path = (path \<noteq> [] \<and> hd path = CHR ''/'')"

definition clean_step :: "bool \<Rightarrow> string list \<Rightarrow> string \<Rightarrow> string list" where
  "clean_step root out el =
     (if el = [] \<or> el = ''.'' then out
      else if el = ''..'' then
        (if out \<noteq> [] \<and> last out \<noteq> ''..'' then butlast out
         else if \<not> root then out @ [''..'']
         else out)
      else out @ [el])"

fun joinSep :: "string list \<Rightarrow> string" where
  "joinSep [] = []"
| "joinSep [x] = x"
| "joinSep (x # y # ys) = x @ ''/'' @ joinSep (y # ys)"

definition filepath_Clean :: "string \<Rightarrow> string" where
  "filepath_Clean path =
     (let out = foldl (clean_step (rooted path)) [] (splitSep path);
          r = (if rooted path then ''/'' else []) @ joinSep out
      in if r = [] then ''.'' else r)"

text \<open>\<^verbatim>\<open>Join\<close> skips the leading empty elements and cleans the rest joined by the
  separator; of empty elements alone it makes the empty path.\<close>

fun filepath_Join :: "string list \<Rightarrow> string" where
  "filepath_Join [] = []"
| "filepath_Join (e # es) =
     (if e = [] then filepath_Join es else filepath_Clean (joinSep (e # es)))"

text \<open>\<^verbatim>\<open>Abs\<close>: a rooted path is cleaned; another one is joined to the working directory
  of the process, and fails when that cannot be read.\<close>

definition filepath_Abs :: "go_error + string \<Rightarrow> string \<Rightarrow> go_error + string" where
  "filepath_Abs getwd path =
     (if rooted path then Inr (filepath_Clean path)
      else (case getwd of
              Inl err \<Rightarrow> Inl err
            | Inr wd \<Rightarrow> Inr (filepath_Join [wd, path])))"

text \<open>
  Joining a directory and a plain file name: the name comes last in the cleaned path, and
  what stands before it depends on the directory alone. A plain name is not empty, has no
  separator and is neither \<^verbatim>\<open>.\<close> nor \<^verbatim>\<open>..\<close>; \<open>clean_prefix q\<close> is what \<^verbatim>\<open>Clean\<close>
  puts before a plain name appended to \<open>q\<close>, when \<open>q\<close> is empty or ends in a separator.
\<close>

definition simple_name :: "string \<Rightarrow> bool" where
  "simple_name f = (f \<noteq> [] \<and> CHR ''/'' \<notin> set f \<and> f \<noteq> ''.'' \<and> f \<noteq> ''..'')"

definition clean_prefix :: "string \<Rightarrow> string" where
  "clean_prefix q =
     (if rooted q then ''/'' else []) @
     concat (map (\<lambda>c. c @ ''/'') (foldl (clean_step (rooted q)) [] (splitSep q)))"

definition join_prefix :: "string \<Rightarrow> string" where
  "join_prefix wd = (if wd = [] then [] else clean_prefix (wd @ ''/''))"

definition abs_prefix :: "go_error + string \<Rightarrow> string \<Rightarrow> go_error + string" where
  "abs_prefix cwd p =
     (if rooted p then Inr (clean_prefix p)
      else (case cwd of
              Inl err \<Rightarrow> Inl err
            | Inr wd \<Rightarrow> Inr (if wd = [] then clean_prefix p else clean_prefix (wd @ ''/'' @ p))))"

section \<open>Files\<close>

text \<open>
  The part of the operating system the provider touches: the files by path, the
  directories made, the working directory of the process as \<^verbatim>\<open>os.Getwd\<close> reports
  it, the log, and for each kind of call the error it meets on a path, if any.
\<close>

record os_state =
  files :: "string \<rightharpoonup> string"
  dirs :: "string set"
  getwd :: "go_error + string"
  mkdir_fault :: "string \<Rightarrow> errno option"
  write_fault :: "string \<Rightarrow> errno option"
  remove_fault :: "string \<Rightarrow> errno option"
  logged :: "string list"


definition os_MkdirAll :: "string \<Rightarrow> 'a os_state_scheme \<Rightarrow> go_error option \<times> 'a os_state_scheme" where
  "os_MkdirAll path st =
     (case mkdir_fault st path of
        Some e \<Rightarrow> (Some (PathError e), st)
      | None \<Rightarrow> (None, st\<lparr>dirs := insert path (dirs st)\<rparr>))"

definition WriteFile ::
  "string \<Rightarrow> string \<Rightarrow> 'a os_state_scheme \<Rightarrow> go_error option \<times> 'a os_state_scheme" where
  "WriteFile path content st =
     (case write_fault st path of
        Some e \<Rightarrow> (Some (PathError e), st)
      | None \<Rightarrow> (None, st\<lparr>files := (files st)(path \<mapsto> content)\<rparr>))"



section \<open>Workspace materialization\<close>

text \<open>The fields of \<^verbatim>\<open>ReleaseSet\<close> that \<^verbatim>\<open>prepareHelmfileFile\<close> reads or writes; every
  other field of the struct lives in the extension of the record.\<close>

record ReleaseSet =
  Content :: string
  WorkingDirectory :: string
  EnableGoTemplate :: bool
  Values :: "iface list"
  ValuesFiles :: "iface list"

text \<open>The loop over \<^verbatim>\<open>fs.Values\<close>, with \<^verbatim>\<open>tempValuesPaths\<close> as accumulator.\<close>

fun writeValues ::
  "(string \<Rightarrow> byte list) \<Rightarrow> string \<Rightarrow> iface list \<Rightarrow> iface list \<Rightarrow> 'a os_state_scheme \<Rightarrow>
   (go_error + iface list) \<times> 'a os_state_scheme" where
  "writeValues sha256 wd [] tempValuesPaths st = (Inr tempValuesPaths, st)"
| "writeValues sha256 wd (vs # rest) tempValuesPaths st =
     (let js = Sprintf_s vs;
          relpath = filepath_Join [wd, ''temp.values-'' @ hex (sha256 js) @ ''.yaml'']
      in case filepath_Abs (getwd st) relpath of
           Inl err \<Rightarrow> (Inl (Wrap ''getting absolute path to '' err), st)
         | Inr abspath \<Rightarrow>
             (case WriteFile abspath js st of
                (Some err, st') \<Rightarrow> (Inl err, st')
              | (None, st') \<Rightarrow>
                  writeValues sha256 wd rest (tempValuesPaths @ [IStr abspath]) st'))"

definition manifest_name :: "(string \<Rightarrow> byte list) \<Rightarrow> bool \<Rightarrow> string \<Rightarrow> string" where
  "manifest_name sha256 enableGoTemplate content =
     (let extension = (if enableGoTemplate then ''.yaml.gotmpl'' else ''.yaml'')
      in ''helmfile-'' @ hex (sha256 content) @ extension)"

text \<open>The function returns its result, the spec it was given a pointer to, and the
  state of the files. A \<^verbatim>\<open>nil\<close> slice is the empty list.\<close>

definition prepareHelmfileFile ::
  "(string \<Rightarrow> byte list) \<Rightarrow> 'b ReleaseSet_scheme \<Rightarrow> 'a os_state_scheme \<Rightarrow>
   (go_error + string) \<times> 'b ReleaseSet_scheme \<times> 'a os_state_scheme" where
  "prepareHelmfileFile sha256 fs st =
     (case (if WorkingDirectory fs \<noteq> [] then os_MkdirAll (WorkingDirectory fs) st
            else (None, st)) of
        (Some err, st1) \<Rightarrow>
          (Inl (Wrap (''creating working directory '' @ WorkingDirectory fs) err), fs, st1)
      | (None, st1) \<Rightarrow>
          (let bs = Content fs;
               tmpFile = manifest_name sha256 (EnableGoTemplate fs) bs;
               tmpFilePath = filepath_Join [WorkingDirectory fs, tmpFile]
           in case WriteFile tmpFilePath bs st1 of
                (Some err, st2) \<Rightarrow> (Inl err, fs, st2)
              | (None, st2) \<Rightarrow>
                  (case writeValues sha256 (WorkingDirectory fs) (Values fs) [] st2 of
                     (Inl err, st3) \<Rightarrow> (Inl err, fs, st3)
                   | (Inr tempValuesPaths, st3) \<Rightarrow>
                       (let fs1 = (if length tempValuesPaths > 0
                                   then fs\<lparr>ValuesFiles := tempValuesPaths @ ValuesFiles fs\<rparr>
                                   else fs);
                            fs2 = fs1\<lparr>Values := []\<rparr>
                        in (Inr tmpFilePath, fs2, st3)))))"

text \<open>The two paths of the function by themselves: \<^verbatim>\<open>tmpFilePath\<close> of the manifest, and
  \<^verbatim>\<open>abspath\<close> of one value overlay in the loop (an error when \<^verbatim>\<open>filepath.Abs\<close> fails).\<close>

definition manifest_path :: "(string \<Rightarrow> byte list) \<Rightarrow> 'b ReleaseSet_scheme \<Rightarrow> string" where
  "manifest_path sha256 fs =
     filepath_Join [WorkingDirectory fs,
                    manifest_name sha256 (EnableGoTemplate fs) (Content fs)]"

definition values_name :: "(string \<Rightarrow> byte list) \<Rightarrow> iface \<Rightarrow> string" where
  "values_name sha256 vs = ''temp.values-'' @ hex (sha256 (Sprintf_s vs)) @ ''.yaml''"

definition values_path ::
  "(string \<Rightarrow> byte list) \<Rightarrow> go_error + string \<Rightarrow> string \<Rightarrow> iface \<Rightarrow> go_error + string" where
  "values_path sha256 cwd wd vs = filepath_Abs cwd (filepath_Join [wd, values_name sha256 vs])"

section \<open>Credential-file cleanup\<close>



section \<open>Configuration validation\<close>

definition KeyAWSProfile :: string where "KeyAWSProfile = ''aws_profile''"









section \<open>Diff reconciliation\<close>

text \<open>
  The host's diff-check capability: which fields have changed, and which fields have
  been marked as computed anew.
\<close>

record diffChecker =
  changes :: "string \<Rightarrow> bool"
  newComputed :: "string \<Rightarrow> bool"

definition HasChange :: "diffChecker \<Rightarrow> string \<Rightarrow> bool" where
  "HasChange d key = changes d key"

definition SetNewComputed :: "string \<Rightarrow> diffChecker \<Rightarrow> diffChecker" where
  "SetNewComputed key d = d\<lparr>newComputed := (newComputed d)(key := True)\<rparr>"

definition KeyDiffOutput :: string where "KeyDiffOutput = ''diff_output''"
definition KeyApplyOutput :: string where "KeyApplyOutput = ''apply_output''"

text \<open>
  Modelled from the spec: \<^verbatim>\<open>markDiffOutputs\<close>, whose Go source is not among the files
  (its unit tests and its callers' key lists are). The specification's table: when a
  tracked input has changed both outputs are marked; otherwise, when the diff text is
  not empty, the apply output alone; otherwise nothing.
\<close>

definition markDiffOutputs :: "diffChecker \<Rightarrow> string \<Rightarrow> string list \<Rightarrow> diffChecker" where
  "markDiffOutputs d diff inputKeys =
     (if list_ex (HasChange d) inputKeys
      then SetNewComputed KeyApplyOutput (SetNewComputed KeyDiffOutput d)
      else if diff \<noteq> [] then SetNewComputed KeyApplyOutput d
      else d)"

section \<open>Properties of the execution variants\<close>

lemma runCommand_fields:
  "snd (runCommand (output, err)) = err"
  "Error (fst (runCommand (output, err))) = err"
  "Output (fst (runCommand (output, err))) = output"
  "ExitCode (fst (runCommand (output, err))) = (case err of Some (ExitError c) \<Rightarrow> c | _ \<Rightarrow> 0)"
  by (simp_all add: runCommand_def Let_def split: option.splits go_error.splits)

lemma library_result_fields:
  "snd (library_result output err) = err"
  "Error (fst (library_result output err)) = err"
  "Output (fst (library_result output err)) = output"
  "ExitCode (fst (library_result output err)) = (if err = None then 0 else 1)"
  by (simp_all add: library_result_def split: option.splits)

text \<open>
  C3, as the specification states it, would have a diff that ends with the exit code for
  pending changes come back without an error. It does not: the subprocess variant
  returns the \<^verbatim>\<open>*exec.ExitError\<close> of exit code 2 as its error and in the result, and
  the in-process variant returns the tool's error of code 2 with \<open>ExitCode = 1\<close>.
\<close>

theorem diff_changes_pending_counterexample:
  "snd (BinaryExecutor_run (\<lambda>args. (''diff text'', Some (ExitError 2))) OpDiff
          [''--detailed-exitcode'']) = Some (ExitError 2) \<and>
   Error (fst (BinaryExecutor_run (\<lambda>args. (''diff text'', Some (ExitError 2))) OpDiff
          [''--detailed-exitcode''])) = Some (ExitError 2) \<and>
   fst (LibraryExecutor_Diff [] []
          (\<lambda>env. \<lparr>captured = ''diff text'',
                   tool_err = Some (ToolError ''Identified at least one change'' (Some 2)),
                   env_after = env\<rparr>) Map.empty Map.empty) =
     (\<lparr>Output = ''diff text'', ExitCode = 1,
       Error = Some (ToolError ''Identified at least one change'' (Some 2))\<rparr>,
      Some (ToolError ''Identified at least one change'' (Some 2)))"
  by (simp add: BinaryExecutor_run_def runCommand_def LibraryExecutor_Diff_def library_call_def
      setEnvironmentVariables_def library_result_def completeEnvVars_def awsEnvVars_def
      Let_def restoreEnv_def os_LookupEnv_def)

text \<open>
  C3, amended: neither variant sets the exit code of a diff with pending changes apart.
  The subprocess variant returns the child's error as it is, in the result and beside it,
  with the child's output, and reports the exit code of an \<^verbatim>\<open>*exec.ExitError\<close> (zero
  for no error and for any other error); so for every operation, diff included, a result
  with a non-zero exit code comes with an error. The in-process variant returns the
  tool's error as it is, with exit code 1 for every error and 0 for none.
\<close>

theorem exit_code_rule:
  "snd (BinaryExecutor_run exec op flags) = snd (exec (operation_name op # flags)) \<and>
   Error (fst (BinaryExecutor_run exec op flags)) = snd (exec (operation_name op # flags)) \<and>
   Output (fst (BinaryExecutor_run exec op flags)) = fst (exec (operation_name op # flags)) \<and>
   ExitCode (fst (BinaryExecutor_run exec op flags)) =
     (case snd (exec (operation_name op # flags)) of Some (ExitError c) \<Rightarrow> c | _ \<Rightarrow> 0) \<and>
   (ExitCode (fst (BinaryExecutor_run exec op flags)) \<noteq> 0 \<longrightarrow>
      snd (BinaryExecutor_run exec op flags) \<noteq> None) \<and>
   snd (library_result output err) = err \<and>
   Error (fst (library_result output err)) = err \<and>
   Output (fst (library_result output err)) = output \<and>
   ExitCode (fst (library_result output err)) = (if err = None then 0 else 1)"
  unfolding BinaryExecutor_run_def
  by (cases "exec (operation_name op # flags)")
     (auto simp: runCommand_fields library_result_fields split: option.splits go_error.splits)

theorem exit_code_rule_witness:
  "ExitCode (fst (BinaryExecutor_run (\<lambda>args. (''Error: release failed'', Some (ExitError 1)))
      OpApply [])) \<noteq> 0 \<and>
   snd (BinaryExecutor_run (\<lambda>args. (''Error: release failed'', Some (ExitError 1)))
      OpApply []) = Some (ExitError 1) \<and>
   ExitCode (fst (library_result ''out'' (Some (ToolError ''failed'' None)))) = 1"
  using exit_code_rule [of "\<lambda>args. (''Error: release failed'', Some (ExitError 1))" OpApply "[]"
      "''out''" "Some (ToolError ''failed'' None)"]
  by simp

text \<open>
  C9: the in-process \<^verbatim>\<open>Build\<close> returns no result and the error that the operation is
  not implemented, whatever its options; the in-process \<^verbatim>\<open>Version\<close> returns the string
  \<^verbatim>\<open>library-mode\<close> and no error, whatever tool is installed.
\<close>

theorem library_build_version:
  "fst (LibraryExecutor_Build opts) = None \<and>
   snd (LibraryExecutor_Build opts) =
     Some (Errorf ''Build operation not yet implemented for library executor'') \<and>
   Contains (error_text (the (snd (LibraryExecutor_Build opts)))) ''not yet implemented'' \<and>
   LibraryExecutor_Version ctx = (''library-mode'', None)"
  by (simp add: LibraryExecutor_Build_def LibraryExecutor_Version_def)

section \<open>Properties of the generated kubeconfig\<close>

text \<open>
  C6: the document built for a cluster credential has one cluster entry, one context
  entry and one user entry, all named after the cluster, as is the current context; the
  user's exec entry runs \<^verbatim>\<open>aws\<close> with the arguments \<^verbatim>\<open>eks get-token --cluster-name\<close>
  and the name, followed by \<^verbatim>\<open>--region\<close> and the region exactly when the region is not
  empty; its environment is the single entry \<^verbatim>\<open>AWS_PROFILE\<close> with the profile when a
  profile is set and is empty otherwise. The rendering is the marshalling of that document.
\<close>

theorem render_document:
  "Clusters (kubeconfig_of config) =
     [\<lparr>cluster_Name = ClusterName config,
       Cluster = \<lparr>Server = Endpoint config, CertificateAuthorityData = CA config\<rparr>\<rparr>] \<and>
   Contexts (kubeconfig_of config) =
     [\<lparr>context_Name = ClusterName config,
       Context = \<lparr>context_Cluster = ClusterName config, context_User = ClusterName config\<rparr>\<rparr>] \<and>
   CurrentContext (kubeconfig_of config) = ClusterName config \<and>
   map user_Name (Users (kubeconfig_of config)) = [ClusterName config] \<and>
   map (Command \<circ> Exec \<circ> User) (Users (kubeconfig_of config)) = [''aws''] \<and>
   map (Args \<circ> Exec \<circ> User) (Users (kubeconfig_of config)) =
     [[''eks'', ''get-token'', ''--cluster-name'', ClusterName config] @
      (if Region config = [] then [] else [''--region'', Region config])] \<and>
   map (Env \<circ> Exec \<circ> User) (Users (kubeconfig_of config)) =
     [if AWSProfile config = [] then []
      else [\<lparr>env_Name = ''AWS_PROFILE'', env_Value = AWSProfile config\<rparr>]] \<and>
   (generateKubeconfigYAML marshal config = Inr doc) =
     (marshal (kubeconfig_of config) = Inr doc)"
  by (simp add: kubeconfig_of_def exec_args_def exec_envVars_def generateKubeconfigYAML_def
      split: sum.splits)

section \<open>Properties of the diff reconciliation\<close>

lemma key_outputs_distinct: "KeyDiffOutput \<noteq> KeyApplyOutput"
  by (simp add: KeyDiffOutput_def KeyApplyOutput_def)

text \<open>
  C1: the table of the specification, for every set of tracked keys and every diff
  text. When a tracked key has changed, both outputs are marked, whatever the diff
  text; when none has and the diff text is not empty, the apply output is marked and the
  mark of the diff output is as it was; when none has and the diff text is empty, the
  checker is as it was, whatever has changed outside the tracked keys. No other field is
  ever marked.
\<close>

theorem markDiffOutputs_table:
  "((\<exists>k \<in> set inputKeys. changes d k) \<longrightarrow>
      newComputed (markDiffOutputs d diff inputKeys) KeyDiffOutput \<and>
      newComputed (markDiffOutputs d diff inputKeys) KeyApplyOutput) \<and>
   (\<not> (\<exists>k \<in> set inputKeys. changes d k) \<and> diff \<noteq> [] \<longrightarrow>
      newComputed (markDiffOutputs d diff inputKeys) KeyDiffOutput = newComputed d KeyDiffOutput \<and>
      newComputed (markDiffOutputs d diff inputKeys) KeyApplyOutput) \<and>
   (\<not> (\<exists>k \<in> set inputKeys. changes d k) \<and> diff = [] \<longrightarrow>
      markDiffOutputs d diff inputKeys = d) \<and>
   (\<forall>k. k \<noteq> KeyDiffOutput \<and> k \<noteq> KeyApplyOutput \<longrightarrow>
      newComputed (markDiffOutputs d diff inputKeys) k = newComputed d k) \<and>
   changes (markDiffOutputs d diff inputKeys) = changes d"
  using key_outputs_distinct
  by (auto simp: markDiffOutputs_def SetNewComputed_def HasChange_def list_ex_iff)

theorem markDiffOutputs_table_witness:
  "newComputed (markDiffOutputs \<lparr>changes = (\<lambda>k. k = ''content''), newComputed = (\<lambda>k. False)\<rparr>
      [] [''values'', ''content'']) KeyDiffOutput \<and>
   newComputed (markDiffOutputs \<lparr>changes = (\<lambda>k. k = ''content''), newComputed = (\<lambda>k. False)\<rparr>
      [] [''values'', ''content'']) KeyApplyOutput \<and>
   \<not> newComputed (markDiffOutputs \<lparr>changes = (\<lambda>k. False), newComputed = (\<lambda>k. False)\<rparr>
      ''some diff output'' [''values'', ''content'']) KeyDiffOutput \<and>
   newComputed (markDiffOutputs \<lparr>changes = (\<lambda>k. False), newComputed = (\<lambda>k. False)\<rparr>
      ''some diff output'' [''values'', ''content'']) KeyApplyOutput \<and>
   markDiffOutputs \<lparr>changes = (\<lambda>k. k = ''some_other_key''), newComputed = (\<lambda>k. False)\<rparr>
      [] [''values'', ''content''] =
     \<lparr>changes = (\<lambda>k. k = ''some_other_key''), newComputed = (\<lambda>k. False)\<rparr>"
  using markDiffOutputs_table [of "[''values'', ''content'']"
          "\<lparr>changes = (\<lambda>k. k = ''content''), newComputed = (\<lambda>k. False)\<rparr>" "[]"]
        markDiffOutputs_table [of "[''values'', ''content'']"
          "\<lparr>changes = (\<lambda>k. False), newComputed = (\<lambda>k. False)\<rparr>" "''some diff output''"]
        markDiffOutputs_table [of "[''values'', ''content'']"
          "\<lparr>changes = (\<lambda>k. k = ''some_other_key''), newComputed = (\<lambda>k. False)\<rparr>" "[]"]
  by simp

section \<open>Properties of the configuration validation\<close>










section \<open>Properties of the credential-file cleanup\<close>




section \<open>Properties of the environment scoping\<close>


lemma copyParent_apply:
  "copyParent keys env complete k =
     (if k \<in> set keys \<and> env k \<noteq> None then map_option IStr (env k) else complete k)"
  by (induction keys arbitrary: complete) (auto simp: os_LookupEnv_def split: option.splits)

lemma completeEnvVars_apply:
  "completeEnvVars envVars env k =
     (case envVars k of
        Some x \<Rightarrow> Some x
      | None \<Rightarrow> (if k \<in> set awsEnvVars then map_option IStr (env k) else None))"
  by (auto simp: completeEnvVars_def copyParent_apply map_add_def split: option.splits)

lemma setEach_result:
  "distinct keys \<Longrightarrow> setEach keys complete env sc = (env', sc') \<Longrightarrow>
     (\<forall>k. env' k = (if k \<in> set keys then written complete env k else env k)) \<and>
     (\<forall>k. originalValues sc' k =
            (if k \<in> set keys \<and> env k \<noteq> None then env k else originalValues sc k)) \<and>
     keysToUnset sc' = keysToUnset sc @ filter (\<lambda>k. env k = None) keys"
proof (induction keys arbitrary: env sc)
  case Nil
  then show ?case by simp
next
  case (Cons key keys)
  define sc1 where "sc1 = (case os_LookupEnv key env of
                   Some originalValue \<Rightarrow>
                     sc\<lparr>originalValues := (originalValues sc)(key \<mapsto> originalValue)\<rparr>
                 | None \<Rightarrow> sc\<lparr>keysToUnset := keysToUnset sc @ [key]\<rparr>)"
  define env1 where "env1 = (case complete key of
                    Some (IStr strValue) \<Rightarrow> os_Setenv key strValue env
                  | _ \<Rightarrow> env)"
  from Cons.prems have rest: "setEach keys complete env1 sc1 = (env', sc')"
    and d: "distinct keys" and notin: "key \<notin> set keys"
    by (simp_all add: sc1_def env1_def Let_def)
  note IH = Cons.IH [OF d rest]
  have env1_key: "env1 key = written complete env key"
    by (auto simp: env1_def written_def os_Setenv_def split: option.splits iface.splits)
  have env1_other: "k \<noteq> key \<Longrightarrow> env1 k = env k" for k
    by (auto simp: env1_def os_Setenv_def split: option.splits iface.splits)
  have written_other: "k \<noteq> key \<Longrightarrow> written complete env1 k = written complete env k" for k
    by (auto simp: written_def env1_other split: option.splits iface.splits)
  have orig1: "originalValues sc1 k =
     (if k = key \<and> env k \<noteq> None then env k else originalValues sc k)" for k
    by (auto simp: sc1_def os_LookupEnv_def split: option.splits)
  have unset1: "keysToUnset sc1 = keysToUnset sc @ (if env key = None then [key] else [])"
    by (auto simp: sc1_def os_LookupEnv_def split: option.splits)
  have filt: "filter (\<lambda>k. env1 k = None) keys = filter (\<lambda>k. env k = None) keys"
    using notin env1_other by (intro filter_cong) (auto, metis+)
  show ?case
  proof (intro conjI allI)
    fix k show "env' k = (if k \<in> set (key # keys) then written complete env k else env k)"
      using IH notin env1_key env1_other [of k] written_other [of k] by auto
  next
    fix k show "originalValues sc' k =
       (if k \<in> set (key # keys) \<and> env k \<noteq> None then env k else originalValues sc k)"
      using IH notin orig1 [of k] env1_other [of k] by auto
  next
    show "keysToUnset sc' = keysToUnset sc @ filter (\<lambda>k. env k = None) (key # keys)"
      using IH unset1 filt by auto
  qed
qed

lemma restoreOriginal_apply:
  "restoreOriginal keys orig env k =
     (if k \<in> set keys \<and> orig k \<noteq> None \<and> valid_key k \<and> valid_value (the (orig k))
      then orig k else env k)"
  by (induction keys arbitrary: env) (auto simp: os_Setenv_def split: option.splits)

lemma unsetKeys_apply:
  "unsetKeys keys env k = (if k \<in> set keys then None else env k)"
  by (induction keys arbitrary: env) (auto simp: os_Unsetenv_def)

lemma restoreEnv_apply:
  "restoreEnv rorder sc env k =
     (if k \<in> set (keysToUnset sc) then None
      else if k \<in> set rorder \<and> originalValues sc k \<noteq> None \<and> valid_key k \<and>
              valid_value (the (originalValues sc k))
      then originalValues sc k else env k)"
  by (simp add: restoreEnv_def unsetKeys_apply restoreOriginal_apply)

lemma setEnvironmentVariables_result:
  assumes "is_range order (completeEnvVars envVars env)"
    and "setEnvironmentVariables order envVars env = (env1, sc)"
  shows "env1 k = (if k \<in> dom (completeEnvVars envVars env)
                   then written (completeEnvVars envVars env) env k else env k)"
    and "originalValues sc k = (if k \<in> dom (completeEnvVars envVars env) then env k else None)"
    and "set (keysToUnset sc) = {k \<in> dom (completeEnvVars envVars env). env k = None}"
proof -
  from assms(1) have d: "distinct order" and s: "set order = dom (completeEnvVars envVars env)"
    by (simp_all add: is_range_def)
  note r = setEach_result [OF d assms(2) [unfolded setEnvironmentVariables_def]]
  show "env1 k = (if k \<in> dom (completeEnvVars envVars env)
                   then written (completeEnvVars envVars env) env k else env k)"
    using r s by simp
  show "originalValues sc k = (if k \<in> dom (completeEnvVars envVars env) then env k else None)"
    using r s by auto
  show "set (keysToUnset sc) = {k \<in> dom (completeEnvVars envVars env). env k = None}"
    using r s by auto
qed

lemma restore_after_set:
  assumes wf: "wf_env env"
    and range: "is_range order (completeEnvVars envVars env)"
    and set: "setEnvironmentVariables order envVars env = (env1, sc)"
    and rrange: "is_range rorder (originalValues sc)"
  shows "restoreEnv rorder sc env2 k =
           (if k \<in> dom (completeEnvVars envVars env) then env k else env2 k)"
proof -
  note r = setEnvironmentVariables_result [OF range set]
  have rs: "set rorder = dom (originalValues sc)" using rrange by (simp add: is_range_def)
  show ?thesis
  proof (cases "k \<in> dom (completeEnvVars envVars env)")
    case True
    show ?thesis
    proof (cases "env k")
      case None
      with True have "k \<in> set (keysToUnset sc)" using r(3) by simp
      with True None show ?thesis by (simp add: restoreEnv_apply)
    next
      case (Some v)
      with True have o: "originalValues sc k = Some v" using r(2) [of k] by simp
      from Some True have nu: "k \<notin> set (keysToUnset sc)" using r(3) by simp
      from wf Some have "valid_key k" "valid_value v" by (auto simp: wf_env_def)
      with o nu rs True Some show ?thesis by (auto simp: restoreEnv_apply)
    qed
  next
    case False
    then have "originalValues sc k = None" "k \<notin> set (keysToUnset sc)"
      using r(2) [of k] r(3) by auto
    with False show ?thesis by (simp add: restoreEnv_apply)
  qed
qed

text \<open>
  C2: in an environment the operating system can hold, with the keys of each map ranged
  over in any order, the restoration returned by \<^verbatim>\<open>setEnvironmentVariables\<close> undoes the
  call: run on the environment the call left, it gives back the environment before the
  call; run on any environment at all (what the wrapped operation left), it gives every
  variable the call touched the state it had before the call, its value if it had one
  (an empty value too) and absence if it had none, and leaves every other variable as it
  finds it. The in-process operations run it when they return, with or without an error.
\<close>

theorem env_scoping_roundtrip:
  assumes wf: "wf_env env"
    and range: "is_range order (completeEnvVars envVars env)"
    and rrange: "is_range rorder (originalValues (snd (setEnvironmentVariables order envVars env)))"
  shows "restoreEnv rorder (snd (setEnvironmentVariables order envVars env))
           (fst (setEnvironmentVariables order envVars env)) = env \<and>
         (\<forall>env2 k. restoreEnv rorder (snd (setEnvironmentVariables order envVars env)) env2 k =
            (if k \<in> dom (completeEnvVars envVars env) then env k else env2 k)) \<and>
         (\<forall>tool k. k \<in> dom (completeEnvVars envVars env) \<longrightarrow>
            snd (LibraryExecutor_Diff order rorder tool envVars env) k = env k \<and>
            snd (LibraryExecutor_Template order rorder tool envVars env) k = env k \<and>
            snd (LibraryExecutor_Destroy order rorder tool envVars env) k = env k \<and>
            snd (LibraryExecutor_Apply order rorder shown tool envVars env) k = env k)"
proof -
  obtain env1 sc where seteq: "setEnvironmentVariables order envVars env = (env1, sc)"
    by (cases "setEnvironmentVariables order envVars env")
  from rrange seteq have rr: "is_range rorder (originalValues sc)" by simp
  note restored = restore_after_set [OF wf range seteq rr]
  have "restoreEnv rorder sc env1 = env"
  proof
    fix k show "restoreEnv rorder sc env1 k = env k"
      using restored [of env1 k] setEnvironmentVariables_result(1) [OF range seteq, of k] by simp
  qed
  moreover have "snd (library_call order rorder tool envVars env) k = env k"
    if "k \<in> dom (completeEnvVars envVars env)" for tool k
    using that seteq restored by (simp add: library_call_def Let_def)
  moreover have "snd (LibraryExecutor_Apply order rorder shown tool envVars env) k = env k"
    if "k \<in> dom (completeEnvVars envVars env)" for tool k
    using that seteq restored by (simp add: LibraryExecutor_Apply_def Let_def)
  ultimately show ?thesis
    using seteq restored
    by (simp add: LibraryExecutor_Diff_def LibraryExecutor_Template_def
        LibraryExecutor_Destroy_def)
qed

lemma witness_env_wf: "wf_env [''HOME'' \<mapsto> ''/root'', ''EMPTY'' \<mapsto> '''']"
  by (auto simp: wf_env_def valid_key_def valid_value_def split: if_splits)

lemma witness_env_complete:
  "completeEnvVars [''EMPTY'' \<mapsto> IStr ''x'', ''NEW'' \<mapsto> IStr ''y'', ''NUM'' \<mapsto> IInt 3]
     [''HOME'' \<mapsto> ''/root'', ''EMPTY'' \<mapsto> ''''] =
   [''HOME'' \<mapsto> IStr ''/root'', ''EMPTY'' \<mapsto> IStr ''x'', ''NEW'' \<mapsto> IStr ''y'', ''NUM'' \<mapsto> IInt 3]"
  by (rule ext) (simp add: completeEnvVars_apply awsEnvVars_def)

lemma witness_env_set:
  "setEnvironmentVariables [''HOME'', ''EMPTY'', ''NEW'', ''NUM'']
     [''EMPTY'' \<mapsto> IStr ''x'', ''NEW'' \<mapsto> IStr ''y'', ''NUM'' \<mapsto> IInt 3]
     [''HOME'' \<mapsto> ''/root'', ''EMPTY'' \<mapsto> ''''] =
   ([''HOME'' \<mapsto> ''/root'', ''EMPTY'' \<mapsto> ''x'', ''NEW'' \<mapsto> ''y''],
    \<lparr>originalValues = [''HOME'' \<mapsto> ''/root'', ''EMPTY'' \<mapsto> ''''], keysToUnset = [''NEW'', ''NUM'']\<rparr>)"
  unfolding setEnvironmentVariables_def witness_env_complete
  by (simp add: os_LookupEnv_def os_Setenv_def valid_key_def valid_value_def fun_upd_twist)

theorem env_scoping_roundtrip_witness:
  "wf_env [''HOME'' \<mapsto> ''/root'', ''EMPTY'' \<mapsto> ''''] \<and>
   is_range [''HOME'', ''EMPTY'', ''NEW'', ''NUM'']
     (completeEnvVars [''EMPTY'' \<mapsto> IStr ''x'', ''NEW'' \<mapsto> IStr ''y'', ''NUM'' \<mapsto> IInt 3]
        [''HOME'' \<mapsto> ''/root'', ''EMPTY'' \<mapsto> '''']) \<and>
   is_range [''EMPTY'', ''HOME'']
     (originalValues (snd (setEnvironmentVariables [''HOME'', ''EMPTY'', ''NEW'', ''NUM'']
        [''EMPTY'' \<mapsto> IStr ''x'', ''NEW'' \<mapsto> IStr ''y'', ''NUM'' \<mapsto> IInt 3]
        [''HOME'' \<mapsto> ''/root'', ''EMPTY'' \<mapsto> '''']))) \<and>
   snd (fst (LibraryExecutor_Diff [''HOME'', ''EMPTY'', ''NEW'', ''NUM''] [''EMPTY'', ''HOME'']
        (\<lambda>e. \<lparr>captured = ''boom'', tool_err = Some (ToolError ''release failed'' None),
               env_after = e(''NEW'' := None, ''EMPTY'' \<mapsto> ''changed'')\<rparr>)
        [''EMPTY'' \<mapsto> IStr ''x'', ''NEW'' \<mapsto> IStr ''y'', ''NUM'' \<mapsto> IInt 3]
        [''HOME'' \<mapsto> ''/root'', ''EMPTY'' \<mapsto> ''''])) =
     Some (ToolError ''release failed'' None) \<and>
   snd (LibraryExecutor_Diff [''HOME'', ''EMPTY'', ''NEW'', ''NUM''] [''EMPTY'', ''HOME'']
        (\<lambda>e. \<lparr>captured = ''boom'', tool_err = Some (ToolError ''release failed'' None),
               env_after = e(''NEW'' := None, ''EMPTY'' \<mapsto> ''changed'')\<rparr>)
        [''EMPTY'' \<mapsto> IStr ''x'', ''NEW'' \<mapsto> IStr ''y'', ''NUM'' \<mapsto> IInt 3]
        [''HOME'' \<mapsto> ''/root'', ''EMPTY'' \<mapsto> '''']) ''EMPTY'' = Some [] \<and>
   snd (LibraryExecutor_Diff [''HOME'', ''EMPTY'', ''NEW'', ''NUM''] [''EMPTY'', ''HOME'']
        (\<lambda>e. \<lparr>captured = ''boom'', tool_err = Some (ToolError ''release failed'' None),
               env_after = e(''NEW'' := None, ''EMPTY'' \<mapsto> ''changed'')\<rparr>)
        [''EMPTY'' \<mapsto> IStr ''x'', ''NEW'' \<mapsto> IStr ''y'', ''NUM'' \<mapsto> IInt 3]
        [''HOME'' \<mapsto> ''/root'', ''EMPTY'' \<mapsto> '''']) ''NEW'' = None"
proof -
  have h1: "wf_env [''HOME'' \<mapsto> ''/root'', ''EMPTY'' \<mapsto> '''']"
    by (rule witness_env_wf)
  have h2: "is_range [''HOME'', ''EMPTY'', ''NEW'', ''NUM'']
     (completeEnvVars [''EMPTY'' \<mapsto> IStr ''x'', ''NEW'' \<mapsto> IStr ''y'', ''NUM'' \<mapsto> IInt 3]
        [''HOME'' \<mapsto> ''/root'', ''EMPTY'' \<mapsto> ''''])"
    unfolding witness_env_complete by (auto simp: is_range_def)
  have h3: "is_range [''EMPTY'', ''HOME'']
     (originalValues (snd (setEnvironmentVariables [''HOME'', ''EMPTY'', ''NEW'', ''NUM'']
        [''EMPTY'' \<mapsto> IStr ''x'', ''NEW'' \<mapsto> IStr ''y'', ''NUM'' \<mapsto> IInt 3]
        [''HOME'' \<mapsto> ''/root'', ''EMPTY'' \<mapsto> ''''])))"
    unfolding witness_env_set by (auto simp: is_range_def)
  have err: "snd (fst (LibraryExecutor_Diff [''HOME'', ''EMPTY'', ''NEW'', ''NUM''] [''EMPTY'', ''HOME'']
        (\<lambda>e. \<lparr>captured = ''boom'', tool_err = Some (ToolError ''release failed'' None),
               env_after = e(''NEW'' := None, ''EMPTY'' \<mapsto> ''changed'')\<rparr>)
        [''EMPTY'' \<mapsto> IStr ''x'', ''NEW'' \<mapsto> IStr ''y'', ''NUM'' \<mapsto> IInt 3]
        [''HOME'' \<mapsto> ''/root'', ''EMPTY'' \<mapsto> ''''])) =
     Some (ToolError ''release failed'' None)"
    by (simp add: LibraryExecutor_Diff_def library_call_def library_result_def
        split: prod.splits)
  have d: "dom (completeEnvVars [''EMPTY'' \<mapsto> IStr ''x'', ''NEW'' \<mapsto> IStr ''y'', ''NUM'' \<mapsto> IInt 3]
        [''HOME'' \<mapsto> ''/root'', ''EMPTY'' \<mapsto> '''']) = {''HOME'', ''EMPTY'', ''NEW'', ''NUM''}"
    unfolding witness_env_complete by auto
  show ?thesis
    using h1 h2 h3 err env_scoping_roundtrip [OF h1 h2 h3] unfolding d
    by simp
qed

text \<open>
  C8: besides the configured map, \<^verbatim>\<open>setEnvironmentVariables\<close> takes up each of the nine
  fixed variables that the parent environment has: such a variable, when not configured,
  enters the complete map with the parent's value, keeps that value in the environment
  and is recorded for restoration. A configured entry takes the place of the parent's
  value in the complete map; a configured string that \<^verbatim>\<open>os.Setenv\<close> accepts becomes the
  value in the environment; a configured value that is not a string leaves the variable
  as it was. Every other variable is left alone.
\<close>

theorem env_propagation:
  assumes range: "is_range order (completeEnvVars envVars env)"
  shows "awsEnvVars =
           [''AWS_PROFILE'', ''AWS_REGION'', ''AWS_DEFAULT_REGION'', ''AWS_ACCESS_KEY_ID'',
            ''AWS_SECRET_ACCESS_KEY'', ''AWS_SESSION_TOKEN'', ''AWS_CONFIG_FILE'',
            ''AWS_SHARED_CREDENTIALS_FILE'', ''HOME''] \<and>
         (\<forall>k v. k \<in> set awsEnvVars \<and> env k = Some v \<and> envVars k = None \<longrightarrow>
            completeEnvVars envVars env k = Some (IStr v) \<and>
            fst (setEnvironmentVariables order envVars env) k = Some v \<and>
            originalValues (snd (setEnvironmentVariables order envVars env)) k = Some v) \<and>
         (\<forall>k x. envVars k = Some x \<longrightarrow> completeEnvVars envVars env k = Some x) \<and>
         (\<forall>k s. envVars k = Some (IStr s) \<and> valid_key k \<and> valid_value s \<longrightarrow>
            fst (setEnvironmentVariables order envVars env) k = Some s) \<and>
         (\<forall>k x. envVars k = Some x \<and> (\<forall>s. x \<noteq> IStr s) \<longrightarrow>
            fst (setEnvironmentVariables order envVars env) k = env k) \<and>
         (\<forall>k. envVars k = None \<and> \<not> (k \<in> set awsEnvVars \<and> env k \<noteq> None) \<longrightarrow>
            completeEnvVars envVars env k = None \<and>
            fst (setEnvironmentVariables order envVars env) k = env k)"
proof -
  obtain env1 sc where seteq: "setEnvironmentVariables order envVars env = (env1, sc)"
    by (cases "setEnvironmentVariables order envVars env")
  note r = setEnvironmentVariables_result [OF range seteq]
  have c: "completeEnvVars envVars env k =
     (case envVars k of
        Some x \<Rightarrow> Some x
      | None \<Rightarrow> (if k \<in> set awsEnvVars then map_option IStr (env k) else None))" for k
    by (rule completeEnvVars_apply)
  have 1: "completeEnvVars envVars env k = Some (IStr v) \<and> env1 k = Some v \<and>
           originalValues sc k = Some v"
    if "k \<in> set awsEnvVars" "env k = Some v" "envVars k = None" for k v
    using that r(1) [of k] r(2) [of k] c [of k] by (auto simp: written_def)
  have 2: "completeEnvVars envVars env k = Some x" if "envVars k = Some x" for k x
    using that c [of k] by simp
  have 3: "env1 k = Some s" if "envVars k = Some (IStr s)" "valid_key k" "valid_value s" for k s
    using that r(1) [of k] c [of k] by (auto simp: written_def)
  have 4: "env1 k = env k" if "envVars k = Some x" "\<forall>s. x \<noteq> IStr s" for k x
    using that r(1) [of k] c [of k] by (cases x) (auto simp: written_def)
  have 5: "completeEnvVars envVars env k = None \<and> env1 k = env k"
    if "envVars k = None" "\<not> (k \<in> set awsEnvVars \<and> env k \<noteq> None)" for k
    using that r(1) [of k] c [of k] by (auto simp: written_def)
  show ?thesis
    unfolding seteq fst_conv snd_conv using 1 2 3 4 5 awsEnvVars_def by blast
qed

theorem env_propagation_witness:
  "is_range [''HOME'', ''EMPTY'', ''NEW'', ''NUM'']
     (completeEnvVars [''EMPTY'' \<mapsto> IStr ''x'', ''NEW'' \<mapsto> IStr ''y'', ''NUM'' \<mapsto> IInt 3]
        [''HOME'' \<mapsto> ''/root'', ''EMPTY'' \<mapsto> '''']) \<and>
   completeEnvVars [''EMPTY'' \<mapsto> IStr ''x'', ''NEW'' \<mapsto> IStr ''y'', ''NUM'' \<mapsto> IInt 3]
        [''HOME'' \<mapsto> ''/root'', ''EMPTY'' \<mapsto> ''''] ''HOME'' = Some (IStr ''/root'') \<and>
   fst (setEnvironmentVariables [''HOME'', ''EMPTY'', ''NEW'', ''NUM'']
        [''EMPTY'' \<mapsto> IStr ''x'', ''NEW'' \<mapsto> IStr ''y'', ''NUM'' \<mapsto> IInt 3]
        [''HOME'' \<mapsto> ''/root'', ''EMPTY'' \<mapsto> '''']) ''EMPTY'' = Some ''x'' \<and>
   fst (setEnvironmentVariables [''HOME'', ''EMPTY'', ''NEW'', ''NUM'']
        [''EMPTY'' \<mapsto> IStr ''x'', ''NEW'' \<mapsto> IStr ''y'', ''NUM'' \<mapsto> IInt 3]
        [''HOME'' \<mapsto> ''/root'', ''EMPTY'' \<mapsto> '''']) ''NUM'' = None"
proof -
  have h: "is_range [''HOME'', ''EMPTY'', ''NEW'', ''NUM'']
     (completeEnvVars [''EMPTY'' \<mapsto> IStr ''x'', ''NEW'' \<mapsto> IStr ''y'', ''NUM'' \<mapsto> IInt 3]
        [''HOME'' \<mapsto> ''/root'', ''EMPTY'' \<mapsto> ''''])"
    unfolding witness_env_complete by (auto simp: is_range_def)
  have v: "valid_key ''EMPTY''" "valid_value ''x''" "''HOME'' \<in> set awsEnvVars"
    by (simp_all add: valid_key_def valid_value_def awsEnvVars_def)
  from env_propagation [OF h] have
    a: "\<And>k v. k \<in> set awsEnvVars \<and> [''HOME'' \<mapsto> ''/root'', ''EMPTY'' \<mapsto> ''''] k = Some v \<and> [''EMPTY'' \<mapsto> IStr ''x'', ''NEW'' \<mapsto> IStr ''y'', ''NUM'' \<mapsto> IInt 3] k = None \<longrightarrow>
            completeEnvVars [''EMPTY'' \<mapsto> IStr ''x'', ''NEW'' \<mapsto> IStr ''y'', ''NUM'' \<mapsto> IInt 3] [''HOME'' \<mapsto> ''/root'', ''EMPTY'' \<mapsto> ''''] k = Some (IStr v)"
    and b: "\<And>k s. [''EMPTY'' \<mapsto> IStr ''x'', ''NEW'' \<mapsto> IStr ''y'', ''NUM'' \<mapsto> IInt 3] k = Some (IStr s) \<and> valid_key k \<and> valid_value s \<longrightarrow>
            fst (setEnvironmentVariables [''HOME'', ''EMPTY'', ''NEW'', ''NUM''] [''EMPTY'' \<mapsto> IStr ''x'', ''NEW'' \<mapsto> IStr ''y'', ''NUM'' \<mapsto> IInt 3] [''HOME'' \<mapsto> ''/root'', ''EMPTY'' \<mapsto> '''']) k = Some s"
    and c: "\<And>k x. [''EMPTY'' \<mapsto> IStr ''x'', ''NEW'' \<mapsto> IStr ''y'', ''NUM'' \<mapsto> IInt 3] k = Some x \<and> (\<forall>s. x \<noteq> IStr s) \<longrightarrow>
            fst (setEnvironmentVariables [''HOME'', ''EMPTY'', ''NEW'', ''NUM''] [''EMPTY'' \<mapsto> IStr ''x'', ''NEW'' \<mapsto> IStr ''y'', ''NUM'' \<mapsto> IInt 3] [''HOME'' \<mapsto> ''/root'', ''EMPTY'' \<mapsto> '''']) k = [''HOME'' \<mapsto> ''/root'', ''EMPTY'' \<mapsto> ''''] k"
    by blast+
  show ?thesis
    using h a [of "''HOME''" "''/root''"] b [of "''EMPTY''" "''x''"] c [of "''NUM''" "IInt 3"] v
    by simp
qed

section \<open>Properties of paths and file names\<close>

lemma splitSep_nonempty: "splitSep p \<noteq> []"
  by (induction p) (auto split: list.splits)

lemma splitSep_append_name:
  "CHR ''/'' \<notin> set f \<Longrightarrow>
   splitSep (q @ f) = butlast (splitSep q) @ [last (splitSep q) @ f]"
proof (induction q)
  case Nil
  then show ?case
  proof (induction f)
    case Nil
    then show ?case by simp
  next
    case (Cons c f)
    then show ?case using splitSep_nonempty [of f] by (auto split: list.splits)
  qed
next
  case (Cons c q)
  then show ?case
    using splitSep_nonempty [of q] splitSep_nonempty [of "q @ f"]
    by (auto split: list.splits)
qed

lemma splitSep_dir: "splitSep (q @ ''/'') = splitSep q @ [[]]"
  using splitSep_nonempty by (induction q) (auto split: list.splits)

lemma last_splitSep_dir:
  assumes "q = [] \<or> last q = CHR ''/''"
  shows "last (splitSep q) = []"
proof (cases "q = []")
  case True
  then show ?thesis by simp
next
  case False
  with assms have "q = butlast q @ ''/''" by (metis append_butlast_last_id)
  then have "splitSep q = splitSep (butlast q) @ [[]]" using splitSep_dir by metis
  then show ?thesis by simp
qed

lemma joinSep_snoc: "joinSep (out @ [f]) = concat (map (\<lambda>c. c @ ''/'') out) @ f"
  by (induction out rule: joinSep.induct) auto

lemma foldl_clean_step_dir:
  assumes "last xs = []" "xs \<noteq> []"
  shows "foldl (clean_step r) [] xs = foldl (clean_step r) [] (butlast xs)"
proof -
  from assms have "xs = butlast xs @ [[]]" by (metis append_butlast_last_id)
  then have "foldl (clean_step r) [] xs = foldl (clean_step r) [] (butlast xs @ [[]])" by simp
  then show ?thesis by (simp add: clean_step_def)
qed

lemma rooted_append_name:
  "simple_name f \<Longrightarrow> rooted (q @ f) = rooted q"
  by (cases q) (auto simp: rooted_def simple_name_def, (cases f; auto)+)

lemma Clean_dir_name:
  assumes f: "simple_name f" and q: "q = [] \<or> last q = CHR ''/''"
  shows "filepath_Clean (q @ f) = clean_prefix q @ f"
proof -
  from f have nos: "CHR ''/'' \<notin> set f" and ne: "f \<noteq> []" and nd: "f \<noteq> ''.''" "f \<noteq> ''..''"
    by (simp_all add: simple_name_def)
  have sp: "splitSep (q @ f) = butlast (splitSep q) @ [f]"
    using splitSep_append_name [OF nos, of q] last_splitSep_dir [OF q] by simp
  have out: "foldl (clean_step (rooted q)) [] (splitSep (q @ f)) =
             foldl (clean_step (rooted q)) [] (splitSep q) @ [f]"
    using foldl_clean_step_dir [OF last_splitSep_dir [OF q] splitSep_nonempty, of "rooted q"]
      ne nd
    by (simp add: sp clean_step_def)
  show ?thesis
    using ne
    by (simp add: filepath_Clean_def Let_def rooted_append_name [OF f] out joinSep_snoc
        clean_prefix_def)
qed

lemma clean_prefix_dir: "clean_prefix q = [] \<or> last (clean_prefix q) = CHR ''/''"
proof (cases "foldl (clean_step (rooted q)) [] (splitSep q)" rule: rev_cases)
  case Nil
  then show ?thesis by (simp add: clean_prefix_def)
next
  case (snoc ys y)
  then show ?thesis by (simp add: clean_prefix_def)
qed

lemma join_prefix_dir: "join_prefix wd = [] \<or> last (join_prefix wd) = CHR ''/''"
  using clean_prefix_dir by (simp add: join_prefix_def)

lemma Clean_name: "simple_name f \<Longrightarrow> filepath_Clean f = f"
  using Clean_dir_name [of f "[]"]
  by (simp add: clean_prefix_def rooted_def clean_step_def)

lemma Join_dir_name:
  assumes "simple_name f"
  shows "filepath_Join [wd, f] = join_prefix wd @ f"
proof (cases "wd = []")
  case True
  with assms show ?thesis
    by (simp add: join_prefix_def Clean_name)
next
  case False
  then show ?thesis
    using Clean_dir_name [OF assms, of "wd @ ''/''"] by (simp add: join_prefix_def)
qed

lemma Abs_dir_name:
  assumes f: "simple_name f" and p: "p = [] \<or> last p = CHR ''/''"
  shows "filepath_Abs cwd (p @ f) = map_sum id (\<lambda>pre. pre @ f) (abs_prefix cwd p)"
proof -
  have r: "rooted (p @ f) = rooted p" by (rule rooted_append_name [OF f])
  have ne: "p @ f \<noteq> []" using f by (simp add: simple_name_def)
  have c1: "filepath_Clean (p @ f) = clean_prefix p @ f" by (rule Clean_dir_name [OF f p])
  have c2: "filepath_Clean (wd @ ''/'' @ p @ f) = clean_prefix (wd @ ''/'' @ p) @ f" for wd
    using Clean_dir_name [OF f, of "wd @ ''/'' @ p"] p by auto
  show ?thesis
    using ne c1 c2
    by (auto simp: filepath_Abs_def abs_prefix_def r split: sum.splits)
qed

lemma hexdigit_inj: "m < 16 \<Longrightarrow> n < 16 \<Longrightarrow> hexdigit m = hexdigit n \<Longrightarrow> m = n"
proof -
  have d: "distinct ''0123456789abcdef''" by simp
  have l: "length ''0123456789abcdef'' = 16" by simp
  show "m < 16 \<Longrightarrow> n < 16 \<Longrightarrow> hexdigit m = hexdigit n \<Longrightarrow> m = n"
    unfolding hexdigit_def using nth_eq_iff_index_eq [OF d, of m n] l by simp
qed

lemma hexdigit_in: "n < 16 \<Longrightarrow> hexdigit n \<in> set ''0123456789abcdef''"
proof -
  have l: "length ''0123456789abcdef'' = 16" by simp
  show "n < 16 \<Longrightarrow> hexdigit n \<in> set ''0123456789abcdef''"
    unfolding hexdigit_def using nth_mem [of n "''0123456789abcdef''"] l by metis
qed

lemma unat_byte_div: "unat (b :: byte) div 16 < 16"
proof -
  have "unat b < 2 ^ 8" using unsigned_less [of b] by simp
  then show ?thesis by simp
qed

lemma hex_byte_inj: "hex_byte b1 = hex_byte b2 \<Longrightarrow> b1 = b2"
proof -
  assume h: "hex_byte b1 = hex_byte b2"
  have "unat b1 div 16 = unat b2 div 16"
    using h hexdigit_inj [OF unat_byte_div [of b1] unat_byte_div [of b2]]
    by (simp add: hex_byte_def)
  moreover have "unat b1 mod 16 = unat b2 mod 16"
    using h hexdigit_inj [of "unat b1 mod 16" "unat b2 mod 16"] by (simp add: hex_byte_def)
  ultimately have "unat b1 = unat b2" by (metis div_mult_mod_eq)
  then show "b1 = b2" by (simp add: word_unat_eq_iff)
qed

lemma hex_inj: "hex bs1 = hex bs2 \<Longrightarrow> bs1 = bs2"
proof (induction bs1 arbitrary: bs2)
  case Nil
  then show ?case by (cases bs2) (simp_all add: hex_def hex_byte_def)
next
  case (Cons b bs1)
  show ?case
  proof (cases bs2)
    case Nil
    with Cons.prems show ?thesis by (simp add: hex_def hex_byte_def)
  next
    case (Cons c cs)
    with Cons.prems have "hex_byte b = hex_byte c" "hex bs1 = hex cs"
      by (simp_all add: hex_def hex_byte_def)
    with Cons.IH Cons show ?thesis using hex_byte_inj by auto
  qed
qed

lemma hex_chars: "set (hex bs) \<subseteq> set ''0123456789abcdef''"
proof (induction bs)
  case Nil
  then show ?case by (simp add: hex_def)
next
  case (Cons b bs)
  have "hexdigit (unat b div 16) \<in> set ''0123456789abcdef''"
    by (rule hexdigit_in [OF unat_byte_div])
  moreover have "hexdigit (unat b mod 16) \<in> set ''0123456789abcdef''"
    by (rule hexdigit_in) simp
  ultimately show ?case using Cons by (simp add: hex_def hex_byte_def)
qed

lemma hex_no_sep: "CHR ''/'' \<notin> set (hex bs)"
  using hex_chars [of bs] by auto

lemma simple_manifest_name: "simple_name (manifest_name sha256 g content)"
  using hex_no_sep by (simp add: simple_name_def manifest_name_def Let_def)

lemma simple_values_name: "simple_name (values_name sha256 vs)"
  using hex_no_sep by (simp add: simple_name_def values_name_def)

lemma manifest_name_eq:
  "(manifest_name sha256 g c1 = manifest_name sha256 g c2) = (sha256 c1 = sha256 c2)"
  using hex_inj by (auto simp: manifest_name_def Let_def)

lemma values_name_eq:
  "(values_name sha256 v1 = values_name sha256 v2) =
   (sha256 (Sprintf_s v1) = sha256 (Sprintf_s v2))"
  using hex_inj by (auto simp: values_name_def)

lemma manifest_path_eq: "manifest_path sha256 fs =
   join_prefix (WorkingDirectory fs) @ manifest_name sha256 (EnableGoTemplate fs) (Content fs)"
  by (simp only: manifest_path_def Join_dir_name [OF simple_manifest_name])

lemma values_path_eq: "values_path sha256 cwd wd vs =
   map_sum id (\<lambda>pre. pre @ values_name sha256 vs) (abs_prefix cwd (join_prefix wd))"
  by (simp only: values_path_def Join_dir_name [OF simple_values_name]
      Abs_dir_name [OF simple_values_name join_prefix_dir])

section \<open>Properties of the workspace materialization\<close>

lemma WriteFile_getwd: "WriteFile p c st = (r, st') \<Longrightarrow> getwd st' = getwd st"
  by (auto simp: WriteFile_def split: option.splits)

lemma os_MkdirAll_getwd: "os_MkdirAll p st = (r, st') \<Longrightarrow> getwd st' = getwd st"
  by (auto simp: os_MkdirAll_def split: option.splits)

lemma writeValues_success:
  "writeValues sha256 wd vs acc st = (Inr paths, st') \<Longrightarrow>
   \<exists>ps. map (values_path sha256 (getwd st) wd) vs = map Inr ps \<and> paths = acc @ map IStr ps"
proof (induction vs arbitrary: acc st)
  case Nil
  then show ?case by simp
next
  case (Cons v vs)
  let ?rel = "filepath_Join [wd, ''temp.values-'' @ hex (sha256 (Sprintf_s v)) @ ''.yaml'']"
  from Cons.prems obtain abspath where a: "filepath_Abs (getwd st) ?rel = Inr abspath"
    by (cases "filepath_Abs (getwd st) ?rel") (simp_all add: Let_def)
  obtain r st1 where w: "WriteFile abspath (Sprintf_s v) st = (r, st1)"
    by (cases "WriteFile abspath (Sprintf_s v) st")
  from Cons.prems a w have rnone: "r = None"
    by (cases r) (simp_all add: Let_def)
  from Cons.prems a w rnone
  have rest: "writeValues sha256 wd vs (acc @ [IStr abspath]) st1 = (Inr paths, st')"
    by (simp add: Let_def)
  from Cons.IH [OF rest] obtain ps where
    ps: "map (values_path sha256 (getwd st1) wd) vs = map Inr ps"
        "paths = (acc @ [IStr abspath]) @ map IStr ps"
    by blast
  have g: "getwd st1 = getwd st" by (rule WriteFile_getwd [OF w])
  have v: "values_path sha256 (getwd st) wd v = Inr abspath"
    using a by (simp add: values_path_def values_name_def)
  show ?case
    using ps g v by (intro exI [of _ "abspath # ps"]) simp
qed

lemma prepare_success:
  assumes "prepareHelmfileFile sha256 fs st = (Inr path, fs', st')"
  shows "path = manifest_path sha256 fs \<and>
         (\<exists>ps. map (values_path sha256 (getwd st) (WorkingDirectory fs)) (Values fs) = map Inr ps \<and>
               fs' = fs\<lparr>ValuesFiles := map IStr ps @ ValuesFiles fs, Values := []\<rparr>)"
proof -
  let ?mk = "if WorkingDirectory fs \<noteq> [] then os_MkdirAll (WorkingDirectory fs) st
             else (None, st)"
  obtain r1 st1 where mk: "?mk = (r1, st1)" by (cases ?mk)
  from assms mk have r1: "r1 = None"
    by (cases r1) (simp_all add: prepareHelmfileFile_def)
  have g1: "getwd st1 = getwd st"
    using mk os_MkdirAll_getwd by (auto split: if_splits)
  let ?p = "manifest_path sha256 fs"
  obtain r2 st2 where wf: "WriteFile ?p (Content fs) st1 = (r2, st2)"
    by (cases "WriteFile ?p (Content fs) st1")
  from assms mk r1 wf have r2: "r2 = None"
    by (cases r2) (simp_all add: prepareHelmfileFile_def manifest_path_def Let_def)
  have g2: "getwd st2 = getwd st" using WriteFile_getwd [OF wf] g1 by simp
  obtain r3 st3 where wv: "writeValues sha256 (WorkingDirectory fs) (Values fs) [] st2 = (r3, st3)"
    by (cases "writeValues sha256 (WorkingDirectory fs) (Values fs) [] st2")
  from assms mk r1 wf r2 wv obtain tmp where r3: "r3 = Inr tmp"
    by (cases r3) (simp_all add: prepareHelmfileFile_def manifest_path_def Let_def)
  from writeValues_success [OF wv [unfolded r3]] g2 obtain ps where
    ps: "map (values_path sha256 (getwd st) (WorkingDirectory fs)) (Values fs) = map Inr ps"
        "tmp = map IStr ps"
    by auto
  from assms mk r1 wf r2 wv r3 have res: "path = ?p"
    "fs' = (if length tmp > 0 then fs\<lparr>ValuesFiles := tmp @ ValuesFiles fs\<rparr> else fs)\<lparr>Values := []\<rparr>"
    by (simp_all add: prepareHelmfileFile_def manifest_path_def Let_def)
  have "fs' = fs\<lparr>ValuesFiles := map IStr ps @ ValuesFiles fs, Values := []\<rparr>"
    using res(2) ps(2) by (cases ps) simp_all
  with res(1) ps(1) show ?thesis by blast
qed

lemma witness_join: "join_prefix ''/work'' = ''/work/''"
  by (simp add: join_prefix_def clean_prefix_def rooted_def clean_step_def)

lemma witness_abs: "abs_prefix (Inr ''/'') ''/work/'' = Inr ''/work/''"
  by (simp add: abs_prefix_def clean_prefix_def rooted_def clean_step_def)

lemma writeValues_step:
  "writeValues sha256 wd (vs # rest) tempValuesPaths st =
     (case values_path sha256 (getwd st) wd vs of
        Inl err \<Rightarrow> (Inl (Wrap ''getting absolute path to '' err), st)
      | Inr abspath \<Rightarrow>
          (case WriteFile abspath (Sprintf_s vs) st of
             (Some err, st') \<Rightarrow> (Inl err, st')
           | (None, st') \<Rightarrow>
               writeValues sha256 wd rest (tempValuesPaths @ [IStr abspath]) st'))"
  by (simp add: values_path_def values_name_def Let_def del: filepath_Join.simps)

lemma prepare_unfold:
  "prepareHelmfileFile sha256 fs st =
     (case (if WorkingDirectory fs \<noteq> [] then os_MkdirAll (WorkingDirectory fs) st
            else (None, st)) of
        (Some err, st1) \<Rightarrow>
          (Inl (Wrap (''creating working directory '' @ WorkingDirectory fs) err), fs, st1)
      | (None, st1) \<Rightarrow>
          (case WriteFile (manifest_path sha256 fs) (Content fs) st1 of
             (Some err, st2) \<Rightarrow> (Inl err, fs, st2)
           | (None, st2) \<Rightarrow>
               (case writeValues sha256 (WorkingDirectory fs) (Values fs) [] st2 of
                  (Inl err, st3) \<Rightarrow> (Inl err, fs, st3)
                | (Inr tempValuesPaths, st3) \<Rightarrow>
                    (Inr (manifest_path sha256 fs),
                     (if length tempValuesPaths > 0
                      then fs\<lparr>ValuesFiles := tempValuesPaths @ ValuesFiles fs\<rparr>
                      else fs)\<lparr>Values := []\<rparr>, st3))))"
  unfolding prepareHelmfileFile_def manifest_path_def Let_def by (rule refl)

lemma witness_prepare:
  "prepareHelmfileFile (\<lambda>s. [of_nat (length s), 0xff])
     \<lparr>Content = ''releases: []'', WorkingDirectory = ''/work'', EnableGoTemplate = True,
      Values = [IStr ''a: 1''], ValuesFiles = [IStr ''base.yaml'']\<rparr>
     \<lparr>files = Map.empty, dirs = {}, getwd = Inr ''/'', mkdir_fault = (\<lambda>p. None),
      write_fault = (\<lambda>p. None), remove_fault = (\<lambda>p. None), logged = []\<rparr> =
   (Inr ''/work/helmfile-0cff.yaml.gotmpl'',
    \<lparr>Content = ''releases: []'', WorkingDirectory = ''/work'', EnableGoTemplate = True,
      Values = [], ValuesFiles = [IStr ''/work/temp.values-04ff.yaml'', IStr ''base.yaml'']\<rparr>,
    \<lparr>files = [''/work/helmfile-0cff.yaml.gotmpl'' \<mapsto> ''releases: []'',
              ''/work/temp.values-04ff.yaml'' \<mapsto> ''a: 1''],
      dirs = {''/work''}, getwd = Inr ''/'', mkdir_fault = (\<lambda>p. None),
      write_fault = (\<lambda>p. None), remove_fault = (\<lambda>p. None), logged = []\<rparr>)"
proof -
  have m: "manifest_path (\<lambda>s. [of_nat (length s), 0xff])
     \<lparr>Content = ''releases: []'', WorkingDirectory = ''/work'', EnableGoTemplate = True,
      Values = [IStr ''a: 1''], ValuesFiles = [IStr ''base.yaml'']\<rparr>
           = ''/work/helmfile-0cff.yaml.gotmpl''"
    unfolding manifest_path_eq
    by (simp add: witness_join manifest_name_def hex_def hex_byte_def hexdigit_def)
  have v: "values_path (\<lambda>s. [of_nat (length s), 0xff]) (Inr ''/'') ''/work'' (IStr ''a: 1'')
           = Inr ''/work/temp.values-04ff.yaml''"
    unfolding values_path_eq witness_join witness_abs
    by (simp add: values_name_def hex_def hex_byte_def hexdigit_def)
  show ?thesis
    unfolding prepare_unfold
    by (simp add: os_MkdirAll_def WriteFile_def m v writeValues_step
        del: writeValues.simps(2))
qed

lemma witness_prepare2:
  "prepareHelmfileFile (\<lambda>s. [of_nat (length s), 0xff])
     \<lparr>Content = ''releases: [x]'', WorkingDirectory = ''/work'', EnableGoTemplate = True,
      Values = [IStr ''a: 1''], ValuesFiles = []\<rparr>
     \<lparr>files = Map.empty, dirs = {}, getwd = Inr ''/'', mkdir_fault = (\<lambda>p. None),
      write_fault = (\<lambda>p. None), remove_fault = (\<lambda>p. None), logged = []\<rparr> =
   (Inr ''/work/helmfile-0dff.yaml.gotmpl'',
    \<lparr>Content = ''releases: [x]'', WorkingDirectory = ''/work'', EnableGoTemplate = True,
      Values = [], ValuesFiles = [IStr ''/work/temp.values-04ff.yaml'']\<rparr>,
    \<lparr>files = [''/work/helmfile-0dff.yaml.gotmpl'' \<mapsto> ''releases: [x]'',
              ''/work/temp.values-04ff.yaml'' \<mapsto> ''a: 1''],
      dirs = {''/work''}, getwd = Inr ''/'', mkdir_fault = (\<lambda>p. None),
      write_fault = (\<lambda>p. None), remove_fault = (\<lambda>p. None), logged = []\<rparr>)"
proof -
  have m: "manifest_path (\<lambda>s. [of_nat (length s), 0xff])
     \<lparr>Content = ''releases: [x]'', WorkingDirectory = ''/work'', EnableGoTemplate = True,
      Values = [IStr ''a: 1''], ValuesFiles = []\<rparr>
           = ''/work/helmfile-0dff.yaml.gotmpl''"
    unfolding manifest_path_eq
    by (simp add: witness_join manifest_name_def hex_def hex_byte_def hexdigit_def)
  have v: "values_path (\<lambda>s. [of_nat (length s), 0xff]) (Inr ''/'') ''/work'' (IStr ''a: 1'')
           = Inr ''/work/temp.values-04ff.yaml''"
    unfolding values_path_eq witness_join witness_abs
    by (simp add: values_name_def hex_def hex_byte_def hexdigit_def)
  show ?thesis
    unfolding prepare_unfold
    by (simp add: os_MkdirAll_def WriteFile_def m v writeValues_step
        del: writeValues.simps(2))
qed

lemma digest_collision:
  fixes sha256 :: "string \<Rightarrow> byte list"
  assumes "\<forall>c. length (sha256 c) = 32"
  shows "\<exists>c1 c2. c1 \<noteq> c2 \<and> sha256 c1 = sha256 c2"
proof (rule ccontr)
  assume "\<not> (\<exists>c1 c2. c1 \<noteq> c2 \<and> sha256 c1 = sha256 c2)"
  then have inj: "inj sha256" by (auto simp: inj_on_def)
  have "range sha256 \<subseteq> {bs. set bs \<subseteq> UNIV \<and> length bs = 32}" using assms by auto
  moreover have "finite {bs :: byte list. set bs \<subseteq> UNIV \<and> length bs = 32}"
    by (rule finite_lists_length_eq) simp
  ultimately have "finite (range sha256)" by (rule finite_subset)
  then have "finite (UNIV :: string set)" using inj by (rule finite_imageD)
  then show False using infinite_UNIV_listI by blast
qed

text \<open>
  C10: when \<^verbatim>\<open>prepareHelmfileFile\<close> returns a path, the spec it was given has no values
  left, its values files are the absolute paths of the temp files written for the values,
  in the order of the values, followed by the values files it had before (which is the
  list it had before when there were no values), and every other field is as it was.
\<close>

theorem prepare_mutates_spec:
  assumes "prepareHelmfileFile sha256 fs st = (Inr path, fs', st')"
  shows "Values fs' = [] \<and>
         (\<exists>paths. map (values_path sha256 (getwd st) (WorkingDirectory fs)) (Values fs) =
                    map Inr paths \<and>
                  ValuesFiles fs' = map IStr paths @ ValuesFiles fs) \<and>
         fs' = fs\<lparr>ValuesFiles := ValuesFiles fs', Values := []\<rparr> \<and>
         Content fs' = Content fs \<and>
         WorkingDirectory fs' = WorkingDirectory fs \<and>
         EnableGoTemplate fs' = EnableGoTemplate fs \<and>
         ReleaseSet.more fs' = ReleaseSet.more fs"
proof -
  from prepare_success [OF assms] obtain ps where
    ps: "map (values_path sha256 (getwd st) (WorkingDirectory fs)) (Values fs) = map Inr ps"
    and fs': "fs' = fs\<lparr>ValuesFiles := map IStr ps @ ValuesFiles fs, Values := []\<rparr>"
    by blast
  have "ValuesFiles fs' = map IStr ps @ ValuesFiles fs" using fs' by simp
  with ps fs' show ?thesis by auto
qed

theorem prepare_mutates_spec_witness:
  "ValuesFiles (fst (snd (prepareHelmfileFile (\<lambda>s. [of_nat (length s), 0xff])
     \<lparr>Content = ''releases: []'', WorkingDirectory = ''/work'', EnableGoTemplate = True,
      Values = [IStr ''a: 1''], ValuesFiles = [IStr ''base.yaml'']\<rparr>
     \<lparr>files = Map.empty, dirs = {}, getwd = Inr ''/'', mkdir_fault = (\<lambda>p. None),
      write_fault = (\<lambda>p. None), remove_fault = (\<lambda>p. None), logged = []\<rparr>))) =
     [IStr ''/work/temp.values-04ff.yaml'', IStr ''base.yaml''] \<and>
   Values (fst (snd (prepareHelmfileFile (\<lambda>s. [of_nat (length s), 0xff])
     \<lparr>Content = ''releases: []'', WorkingDirectory = ''/work'', EnableGoTemplate = True,
      Values = [IStr ''a: 1''], ValuesFiles = [IStr ''base.yaml'']\<rparr>
     \<lparr>files = Map.empty, dirs = {}, getwd = Inr ''/'', mkdir_fault = (\<lambda>p. None),
      write_fault = (\<lambda>p. None), remove_fault = (\<lambda>p. None), logged = []\<rparr>))) = []"
  using prepare_mutates_spec [OF witness_prepare]
  by (simp add: witness_prepare)

lemma witness_join_rel: "join_prefix ''work'' = ''work/''"
  by (simp add: join_prefix_def clean_prefix_def rooted_def clean_step_def)

lemma witness_abs_rel: "abs_prefix (Inr (CHR ''/'' # d)) ''work/'' = Inr (clean_prefix (CHR ''/'' # d @ ''/work/''))"
  by (simp add: abs_prefix_def rooted_def)

lemma witness_prefix_a: "clean_prefix ''/a/work/'' = ''/a/work/''"
  by (simp add: clean_prefix_def rooted_def clean_step_def)

lemma witness_prefix_b: "clean_prefix ''/b/work/'' = ''/b/work/''"
  by (simp add: clean_prefix_def rooted_def clean_step_def)

lemma witness_prepare_cwd:
  assumes "clean_prefix (CHR ''/'' # d @ ''/work/'') = CHR ''/'' # d @ ''/work/''"
  shows "ValuesFiles (fst (snd (prepareHelmfileFile (\<lambda>s. [of_nat (length s), 0xff])
     \<lparr>Content = ''releases: []'', WorkingDirectory = ''work'', EnableGoTemplate = False,
      Values = [IStr ''a: 1''], ValuesFiles = []\<rparr>
     \<lparr>files = Map.empty, dirs = {}, getwd = Inr (CHR ''/'' # d), mkdir_fault = (\<lambda>p. None),
      write_fault = (\<lambda>p. None), remove_fault = (\<lambda>p. None), logged = []\<rparr>))) =
   [IStr (CHR ''/'' # d @ ''/work/temp.values-04ff.yaml'')]"
proof -
  have v: "values_path (\<lambda>s. [of_nat (length s), 0xff]) (Inr (CHR ''/'' # d)) ''work'' (IStr ''a: 1'')
           = Inr (CHR ''/'' # d @ ''/work/temp.values-04ff.yaml'')"
    unfolding values_path_eq witness_join_rel witness_abs_rel assms
    by (simp add: values_name_def hex_def hex_byte_def hexdigit_def)
  show ?thesis
    unfolding prepare_unfold
    by (simp add: os_MkdirAll_def WriteFile_def v writeValues_step
        del: writeValues.simps(2))
qed

lemma cwd_apart:
  "ValuesFiles (fst (snd (prepareHelmfileFile (\<lambda>s. [of_nat (length s), 0xff])
     \<lparr>Content = ''releases: []'', WorkingDirectory = ''work'', EnableGoTemplate = False,
      Values = [IStr ''a: 1''], ValuesFiles = []\<rparr>
     \<lparr>files = Map.empty, dirs = {}, getwd = Inr ''/a'', mkdir_fault = (\<lambda>p. None),
      write_fault = (\<lambda>p. None), remove_fault = (\<lambda>p. None), logged = []\<rparr>))) \<noteq>
   ValuesFiles (fst (snd (prepareHelmfileFile (\<lambda>s. [of_nat (length s), 0xff])
     \<lparr>Content = ''releases: []'', WorkingDirectory = ''work'', EnableGoTemplate = False,
      Values = [IStr ''a: 1''], ValuesFiles = []\<rparr>
     \<lparr>files = Map.empty, dirs = {}, getwd = Inr ''/b'', mkdir_fault = (\<lambda>p. None),
      write_fault = (\<lambda>p. None), remove_fault = (\<lambda>p. None), logged = []\<rparr>)))"
  using witness_prepare_cwd [of "''a''"] witness_prepare_cwd [of "''b''"]
    witness_prefix_a witness_prefix_b
  by simp

lemma no_collision_free_hash:
  "\<not> (\<exists>sha256 :: string \<Rightarrow> byte list.
        (\<forall>c. length (sha256 c) = 32) \<and>
        (\<forall>c1 c2. c1 \<noteq> c2 \<longrightarrow>
           fst (prepareHelmfileFile sha256
                  \<lparr>Content = c1, WorkingDirectory = ''/work'', EnableGoTemplate = False,
                   Values = [], ValuesFiles = []\<rparr>
                  \<lparr>files = Map.empty, dirs = {}, getwd = Inr ''/'', mkdir_fault = (\<lambda>p. None),
                   write_fault = (\<lambda>p. None), remove_fault = (\<lambda>p. None), logged = []\<rparr>) \<noteq>
           fst (prepareHelmfileFile sha256
                  \<lparr>Content = c2, WorkingDirectory = ''/work'', EnableGoTemplate = False,
                   Values = [], ValuesFiles = []\<rparr>
                  \<lparr>files = Map.empty, dirs = {}, getwd = Inr ''/'', mkdir_fault = (\<lambda>p. None),
                   write_fault = (\<lambda>p. None), remove_fault = (\<lambda>p. None), logged = []\<rparr>)))"
proof
  assume "\<exists>sha256 :: string \<Rightarrow> byte list.
        (\<forall>c. length (sha256 c) = 32) \<and>
        (\<forall>c1 c2. c1 \<noteq> c2 \<longrightarrow>
           fst (prepareHelmfileFile sha256
                  \<lparr>Content = c1, WorkingDirectory = ''/work'', EnableGoTemplate = False,
                   Values = [], ValuesFiles = []\<rparr>
                  \<lparr>files = Map.empty, dirs = {}, getwd = Inr ''/'', mkdir_fault = (\<lambda>p. None),
                   write_fault = (\<lambda>p. None), remove_fault = (\<lambda>p. None), logged = []\<rparr>) \<noteq>
           fst (prepareHelmfileFile sha256
                  \<lparr>Content = c2, WorkingDirectory = ''/work'', EnableGoTemplate = False,
                   Values = [], ValuesFiles = []\<rparr>
                  \<lparr>files = Map.empty, dirs = {}, getwd = Inr ''/'', mkdir_fault = (\<lambda>p. None),
                   write_fault = (\<lambda>p. None), remove_fault = (\<lambda>p. None), logged = []\<rparr>))"
  then obtain sha256 :: "string \<Rightarrow> byte list" where
    len: "\<forall>c. length (sha256 c) = 32" and
    apart: "\<And>c1 c2. c1 \<noteq> c2 \<Longrightarrow>
           fst (prepareHelmfileFile sha256
                  \<lparr>Content = c1, WorkingDirectory = ''/work'', EnableGoTemplate = False,
                   Values = [], ValuesFiles = []\<rparr>
                  \<lparr>files = Map.empty, dirs = {}, getwd = Inr ''/'', mkdir_fault = (\<lambda>p. None),
                   write_fault = (\<lambda>p. None), remove_fault = (\<lambda>p. None), logged = []\<rparr>) \<noteq>
           fst (prepareHelmfileFile sha256
                  \<lparr>Content = c2, WorkingDirectory = ''/work'', EnableGoTemplate = False,
                   Values = [], ValuesFiles = []\<rparr>
                  \<lparr>files = Map.empty, dirs = {}, getwd = Inr ''/'', mkdir_fault = (\<lambda>p. None),
                   write_fault = (\<lambda>p. None), remove_fault = (\<lambda>p. None), logged = []\<rparr>)"
    by blast
  have path: "fst (prepareHelmfileFile sha256
                  \<lparr>Content = c, WorkingDirectory = ''/work'', EnableGoTemplate = False,
                   Values = [], ValuesFiles = []\<rparr>
                  \<lparr>files = Map.empty, dirs = {}, getwd = Inr ''/'', mkdir_fault = (\<lambda>p. None),
                   write_fault = (\<lambda>p. None), remove_fault = (\<lambda>p. None), logged = []\<rparr>) =
              Inr (''/work/helmfile-'' @ hex (sha256 c) @ ''.yaml'')" for c
    unfolding prepare_unfold manifest_path_eq
    by (simp add: os_MkdirAll_def WriteFile_def witness_join manifest_name_def)
  from digest_collision [OF len] obtain c1 c2 where "c1 \<noteq> c2" "sha256 c1 = sha256 c2"
    by blast
  with apart [of c1 c2] path show False by simp
qed

text \<open>
  C4, as the specification states it, would have the manifest paths of two specs with
  distinct contents differ, always. No hash function with digests of 32 bytes makes that
  true: the contents are infinitely many, the digests are not, so two distinct contents
  share a digest and with it the path. It would also have the temp path of a value overlay
  depend on the spec alone: the path is made absolute against the working directory of
  the process, so one spec with a relative working directory gets two paths under two
  process directories.
\<close>

theorem manifest_collision_counterexample:
  "(\<not> (\<exists>sha256 :: string \<Rightarrow> byte list.
        (\<forall>c. length (sha256 c) = 32) \<and>
        (\<forall>c1 c2. c1 \<noteq> c2 \<longrightarrow>
           fst (prepareHelmfileFile sha256
                  \<lparr>Content = c1, WorkingDirectory = ''/work'', EnableGoTemplate = False,
                   Values = [], ValuesFiles = []\<rparr>
                  \<lparr>files = Map.empty, dirs = {}, getwd = Inr ''/'', mkdir_fault = (\<lambda>p. None),
                   write_fault = (\<lambda>p. None), remove_fault = (\<lambda>p. None), logged = []\<rparr>) \<noteq>
           fst (prepareHelmfileFile sha256
                  \<lparr>Content = c2, WorkingDirectory = ''/work'', EnableGoTemplate = False,
                   Values = [], ValuesFiles = []\<rparr>
                  \<lparr>files = Map.empty, dirs = {}, getwd = Inr ''/'', mkdir_fault = (\<lambda>p. None),
                   write_fault = (\<lambda>p. None), remove_fault = (\<lambda>p. None), logged = []\<rparr>)))) \<and>
   ValuesFiles (fst (snd (prepareHelmfileFile (\<lambda>s. [of_nat (length s), 0xff])
     \<lparr>Content = ''releases: []'', WorkingDirectory = ''work'', EnableGoTemplate = False,
      Values = [IStr ''a: 1''], ValuesFiles = []\<rparr>
     \<lparr>files = Map.empty, dirs = {}, getwd = Inr ''/a'', mkdir_fault = (\<lambda>p. None),
      write_fault = (\<lambda>p. None), remove_fault = (\<lambda>p. None), logged = []\<rparr>))) \<noteq>
   ValuesFiles (fst (snd (prepareHelmfileFile (\<lambda>s. [of_nat (length s), 0xff])
     \<lparr>Content = ''releases: []'', WorkingDirectory = ''work'', EnableGoTemplate = False,
      Values = [IStr ''a: 1''], ValuesFiles = []\<rparr>
     \<lparr>files = Map.empty, dirs = {}, getwd = Inr ''/b'', mkdir_fault = (\<lambda>p. None),
      write_fault = (\<lambda>p. None), remove_fault = (\<lambda>p. None), logged = []\<rparr>)))"
  using no_collision_free_hash cwd_apart by (rule conjI)

text \<open>
  C4, amended: for two specs with the same working directory and the same template flag
  whose materialization succeeds, equal contents give the same manifest path, and the
  manifest paths are the same exactly when the SHA-256 digests of the contents are; the
  path ends in \<^verbatim>\<open>.yaml.gotmpl\<close> under the template flag and in \<^verbatim>\<open>.yaml\<close> without it.
  With the same process working directory, the same holds for the temp file of each value
  overlay: equal blobs give the same path, and two paths are the same exactly when the
  digests of the blobs are.
\<close>

theorem workspace_paths_by_digest:
  assumes p1: "prepareHelmfileFile sha256 fs1 st1 = (Inr p1, fs1', st1')"
    and p2: "prepareHelmfileFile sha256 fs2 st2 = (Inr p2, fs2', st2')"
    and wd: "WorkingDirectory fs1 = WorkingDirectory fs2"
    and tmpl: "EnableGoTemplate fs1 = EnableGoTemplate fs2"
  shows "(Content fs1 = Content fs2 \<longrightarrow> p1 = p2) \<and>
         (p1 = p2) = (sha256 (Content fs1) = sha256 (Content fs2)) \<and>
         suffix (if EnableGoTemplate fs1 then ''.yaml.gotmpl'' else ''.yaml'') p1 \<and>
         (getwd st1 = getwd st2 \<longrightarrow>
            (\<forall>i j. i < length (Values fs1) \<and> j < length (Values fs2) \<longrightarrow>
               (Sprintf_s (Values fs1 ! i) = Sprintf_s (Values fs2 ! j) \<longrightarrow>
                  ValuesFiles fs1' ! i = ValuesFiles fs2' ! j) \<and>
               (ValuesFiles fs1' ! i = ValuesFiles fs2' ! j) =
                 (sha256 (Sprintf_s (Values fs1 ! i)) = sha256 (Sprintf_s (Values fs2 ! j)))))"
proof -
  from prepare_success [OF p1] obtain ps1 where
    e1: "p1 = manifest_path sha256 fs1"
    and m1: "map (values_path sha256 (getwd st1) (WorkingDirectory fs1)) (Values fs1) = map Inr ps1"
    and f1: "fs1' = fs1\<lparr>ValuesFiles := map IStr ps1 @ ValuesFiles fs1, Values := []\<rparr>"
    by blast
  from prepare_success [OF p2] obtain ps2 where
    e2: "p2 = manifest_path sha256 fs2"
    and m2: "map (values_path sha256 (getwd st2) (WorkingDirectory fs2)) (Values fs2) = map Inr ps2"
    and f2: "fs2' = fs2\<lparr>ValuesFiles := map IStr ps2 @ ValuesFiles fs2, Values := []\<rparr>"
    by blast
  have eq: "(p1 = p2) = (sha256 (Content fs1) = sha256 (Content fs2))"
    unfolding e1 e2 manifest_path_eq wd tmpl by (simp add: manifest_name_eq)
  have suf: "suffix (if EnableGoTemplate fs1 then ''.yaml.gotmpl'' else ''.yaml'') p1"
    unfolding e1 manifest_path_eq manifest_name_def Let_def
    by (simp add: suffix_def)
  have vals: "(ValuesFiles fs1' ! i = ValuesFiles fs2' ! j) =
                 (sha256 (Sprintf_s (Values fs1 ! i)) = sha256 (Sprintf_s (Values fs2 ! j)))"
    if g: "getwd st1 = getwd st2" and i: "i < length (Values fs1)" and j: "j < length (Values fs2)"
    for i j
  proof -
    have l1: "length ps1 = length (Values fs1)" and l2: "length ps2 = length (Values fs2)"
      using m1 m2 by (metis length_map)+
    have v1: "values_path sha256 (getwd st1) (WorkingDirectory fs1) (Values fs1 ! i) = Inr (ps1 ! i)"
      using m1 i l1 by (metis nth_map)
    have v2: "values_path sha256 (getwd st1) (WorkingDirectory fs1) (Values fs2 ! j) = Inr (ps2 ! j)"
      using m2 j l2 g wd by (metis nth_map)
    from v1 obtain pre where pre: "abs_prefix (getwd st1) (join_prefix (WorkingDirectory fs1)) = Inr pre"
      unfolding values_path_eq
      by (cases "abs_prefix (getwd st1) (join_prefix (WorkingDirectory fs1))") simp_all
    have q1: "ps1 ! i = pre @ values_name sha256 (Values fs1 ! i)"
      using v1 pre unfolding values_path_eq by simp
    have q2: "ps2 ! j = pre @ values_name sha256 (Values fs2 ! j)"
      using v2 pre unfolding values_path_eq by simp
    have "ValuesFiles fs1' ! i = IStr (ps1 ! i)" "ValuesFiles fs2' ! j = IStr (ps2 ! j)"
      using f1 f2 i j l1 l2 by (simp_all add: nth_append)
    then show ?thesis using q1 q2 by (simp add: values_name_eq)
  qed
  show ?thesis using eq suf vals by auto
qed

theorem workspace_paths_by_digest_witness:
  "fst (prepareHelmfileFile (\<lambda>s. [of_nat (length s), 0xff])
     \<lparr>Content = ''releases: []'', WorkingDirectory = ''/work'', EnableGoTemplate = True,
      Values = [IStr ''a: 1''], ValuesFiles = [IStr ''base.yaml'']\<rparr>
     \<lparr>files = Map.empty, dirs = {}, getwd = Inr ''/'', mkdir_fault = (\<lambda>p. None),
      write_fault = (\<lambda>p. None), remove_fault = (\<lambda>p. None), logged = []\<rparr>) =
     Inr ''/work/helmfile-0cff.yaml.gotmpl'' \<and>
   fst (prepareHelmfileFile (\<lambda>s. [of_nat (length s), 0xff])
     \<lparr>Content = ''releases: [x]'', WorkingDirectory = ''/work'', EnableGoTemplate = True,
      Values = [IStr ''a: 1''], ValuesFiles = []\<rparr>
     \<lparr>files = Map.empty, dirs = {}, getwd = Inr ''/'', mkdir_fault = (\<lambda>p. None),
      write_fault = (\<lambda>p. None), remove_fault = (\<lambda>p. None), logged = []\<rparr>) =
     Inr ''/work/helmfile-0dff.yaml.gotmpl'' \<and>
   suffix ''.yaml.gotmpl'' ''/work/helmfile-0cff.yaml.gotmpl'' \<and>
   [of_nat (length ''releases: []''), 0xff] \<noteq> [of_nat (length ''releases: [x]''), 0xff :: byte]"
  using workspace_paths_by_digest [OF witness_prepare witness_prepare2]
  by (simp add: witness_prepare witness_prepare2)

end
